theory Spec2Isabelle
  imports Complex_Main "HOL-Library.Sublist" "HOL-Library.Monad_Syntax"
begin

section \<open>JavaScript strings\<close>

text \<open>
  A string is a list of code units; the model covers the code units below 256 (Latin-1),
  which is what \<^typ>\<open>char\<close> holds. The classes below are those of ECMAScript restricted
  to that range.
\<close>

definition char_code :: "char \<Rightarrow> nat" where
  "char_code c = of_char c"

definition is_digit :: "char \<Rightarrow> bool" where
  "is_digit c = (48 \<le> char_code c \<and> char_code c \<le> 57)"

definition is_upper :: "char \<Rightarrow> bool" where
  "is_upper c = (65 \<le> char_code c \<and> char_code c \<le> 90)"

definition is_lower :: "char \<Rightarrow> bool" where
  "is_lower c = (97 \<le> char_code c \<and> char_code c \<le> 122)"

text \<open>\<^verbatim>\<open>\w\<close> is \<^verbatim>\<open>[A-Za-z0-9_]\<close>.\<close>

definition is_word :: "char \<Rightarrow> bool" where
  "is_word c = (is_upper c \<or> is_lower c \<or> is_digit c \<or> char_code c = 95)"

text \<open>
  \<^verbatim>\<open>\s\<close> and \<^verbatim>\<open>trim\<close> use WhiteSpace and LineTerminator: tab, line feed, vertical tab,
  form feed, carriage return, space and no-break space in this range.
\<close>

definition is_space :: "char \<Rightarrow> bool" where
  "is_space c = ((9 \<le> char_code c \<and> char_code c \<le> 13) \<or> char_code c = 32 \<or> char_code c = 160)"

definition is_line_terminator :: "char \<Rightarrow> bool" where
  "is_line_terminator c = (char_code c = 10 \<or> char_code c = 13)"

text \<open>
  \<^verbatim>\<open>toLowerCase\<close> and \<^verbatim>\<open>toUpperCase\<close> on one code unit: the ASCII letters and the
  Latin-1 letters 192..222 / 224..254 (without the multiplication and division signs).
  Code units whose other case lies beyond 255 are left alone here.
\<close>

definition lower_char :: "char \<Rightarrow> char" where
  "lower_char c =
     (if is_upper c \<or> (192 \<le> char_code c \<and> char_code c \<le> 222 \<and> char_code c \<noteq> 215)
      then char_of (char_code c + 32) else c)"

definition upper_char :: "char \<Rightarrow> char" where
  "upper_char c =
     (if is_lower c \<or> (224 \<le> char_code c \<and> char_code c \<le> 254 \<and> char_code c \<noteq> 247)
      then char_of (char_code c - 32) else c)"

definition toLowerCase :: "string \<Rightarrow> string" where
  "toLowerCase s = map lower_char s"

definition trimStart :: "string \<Rightarrow> string" where
  "trimStart s = dropWhile is_space s"

definition trimEnd :: "string \<Rightarrow> string" where
  "trimEnd s = rev (dropWhile is_space (rev s))"

definition trim :: "string \<Rightarrow> string" where
  "trim s = trimEnd (trimStart s)"

definition startsWith :: "string \<Rightarrow> string \<Rightarrow> bool" where
  "startsWith s p = prefix p s"

definition endsWith :: "string \<Rightarrow> string \<Rightarrow> bool" where
  "endsWith s p = suffix p s"

text \<open>\<^verbatim>\<open>s.includes(needle)\<close>: the needle occurs at some position of \<open>s\<close>.\<close>

fun js_includes :: "string \<Rightarrow> string \<Rightarrow> bool" where
  "js_includes [] needle = (needle = [])"
| "js_includes (c # cs) needle = (prefix needle (c # cs) \<or> js_includes cs needle)"

text \<open>
  \<^verbatim>\<open>s.split(sep)\<close> for a non-empty separator: the pieces between the occurrences of the
  separator, scanning from the left; \<open>acc\<close> is the current piece, reversed. The result
  always has at least one piece.
\<close>

fun split_from :: "string \<Rightarrow> string \<Rightarrow> string \<Rightarrow> string list" where
  "split_from sep acc [] = [rev acc]"
| "split_from sep acc (c # cs) =
     (if prefix sep (c # cs) then rev acc # split_from sep [] (drop (length sep - 1) cs)
      else split_from sep (c # acc) cs)"

definition js_split :: "string \<Rightarrow> string \<Rightarrow> string list" where
  "js_split s sep = split_from sep [] s"

fun js_join :: "string list \<Rightarrow> string \<Rightarrow> string" where
  "js_join [] sep = []"
| "js_join [x] sep = x"
| "js_join (x # y # ys) sep = x @ sep @ js_join (y # ys) sep"

text \<open>
  \<^verbatim>\<open>xs.sort()\<close> on strings orders them by code units; the sort is stable.
\<close>

fun str_le :: "string \<Rightarrow> string \<Rightarrow> bool" where
  "str_le [] ys = True"
| "str_le (x # xs) [] = False"
| "str_le (x # xs) (y # ys) =
     (if char_code x < char_code y then True
      else if char_code y < char_code x then False
      else str_le xs ys)"

fun sort_insert :: "string \<Rightarrow> string list \<Rightarrow> string list" where
  "sort_insert x [] = [x]"
| "sort_insert x (y # ys) = (if str_le y x then y # sort_insert x ys else x # y # ys)"

definition js_sort :: "string list \<Rightarrow> string list" where
  "js_sort xs = foldl (\<lambda>acc x. sort_insert x acc) [] xs"

text \<open>\<^verbatim>\<open>parseInt\<close> on a string of decimal digits.\<close>

definition digit_val :: "char \<Rightarrow> nat" where
  "digit_val c = char_code c - 48"

definition parseInt_digits :: "string \<Rightarrow> nat" where
  "parseInt_digits s = foldl (\<lambda>n c. 10 * n + digit_val c) 0 s"


section \<open>Regular expressions\<close>

text \<open>
  The source does most of its parsing with regular expressions. They are embedded as
  syntax trees and run by a backtracking matcher that follows the ECMAScript semantics:
  alternatives are tried left to right, greedy quantifiers try the longest repetition
  first, lazy ones the shortest, and the first successful path is the match. The fragment
  covers what the source uses: literals, character classes, sequence, alternation,
  \<^verbatim>\<open>*\<close>, \<^verbatim>\<open>*?\<close>, \<^verbatim>\<open>?\<close> (with \<^verbatim>\<open>+\<close> as one copy followed by a star), capture
  groups, \<^verbatim>\<open>^\<close>, \<^verbatim>\<open>$\<close>, \<^verbatim>\<open>\b\<close>, and the flags \<^verbatim>\<open>i\<close>, \<^verbatim>\<open>m\<close>, \<^verbatim>\<open>g\<close>.
  No capture group of the source stands under \<^verbatim>\<open>*\<close> or \<^verbatim>\<open>+\<close>, so the reset of
  captures at the start of an iteration is not modelled.
\<close>

datatype citem =
    CChar char
  | CRange char char
  | CDigit
  | CWord
  | CSpace
  | CNonSpace

datatype regex =
    Lit string
  | Cls "citem list"
  | NCls "citem list"
  | Seq regex regex
  | Alt regex regex
  | Star regex
  | LStar regex
  | Opt regex
  | Grp nat regex
  | Bol
  | Eol
  | WordB

definition Plus :: "regex \<Rightarrow> regex" where
  "Plus r = Seq r (Star r)"

definition LPlus :: "regex \<Rightarrow> regex" where
  "LPlus r = Seq r (LStar r)"

fun Seqs :: "regex list \<Rightarrow> regex" where
  "Seqs [] = Lit []"
| "Seqs [r] = r"
| "Seqs (r # rs) = Seq r (Seqs rs)"

fun Alts :: "regex list \<Rightarrow> regex" where
  "Alts [] = Lit []"
| "Alts [r] = r"
| "Alts (r # rs) = Alt r (Alts rs)"

text \<open>\<^verbatim>\<open>\s\<close>, \<^verbatim>\<open>\d\<close>, \<^verbatim>\<open>\w\<close>, \<^verbatim>\<open>[\s\S]\<close>, \<^verbatim>\<open>[^\n]\<close> and \<^verbatim>\<open>.\<close>\<close>

definition rx_s :: regex where "rx_s = Cls [CSpace]"
definition rx_d :: regex where "rx_d = Cls [CDigit]"
definition rx_w :: regex where "rx_w = Cls [CWord]"
definition rx_any :: regex where "rx_any = Cls [CSpace, CNonSpace]"
definition rx_not_nl :: regex where "rx_not_nl = NCls [CChar (CHR 0x0A)]"
definition rx_dot :: regex where "rx_dot = NCls [CChar (CHR 0x0A), CChar (CHR 0x0D)]"

text \<open>
  The state of a match: the input before the current position (latest code unit first),
  the input from the current position on, and the captures made so far.
\<close>

record mstate =
  pre :: string
  suf :: string
  caps :: "nat \<Rightarrow> string option"

text \<open>Under the \<^verbatim>\<open>i\<close> flag code units are compared after canonicalisation (upper case).\<close>

definition char_eq :: "bool \<Rightarrow> char \<Rightarrow> char \<Rightarrow> bool" where
  "char_eq ic a b = (if ic then upper_char a = upper_char b else a = b)"

fun in_item :: "citem \<Rightarrow> char \<Rightarrow> bool" where
  "in_item (CChar a) c = (c = a)"
| "in_item (CRange a b) c = (char_code a \<le> char_code c \<and> char_code c \<le> char_code b)"
| "in_item CDigit c = is_digit c"
| "in_item CWord c = is_word c"
| "in_item CSpace c = is_space c"
| "in_item CNonSpace c = (\<not> is_space c)"

definition in_class :: "bool \<Rightarrow> citem list \<Rightarrow> char \<Rightarrow> bool" where
  "in_class ic items c =
     (\<exists>it \<in> set items. in_item it c \<or> (ic \<and> (in_item it (upper_char c) \<or> in_item it (lower_char c))))"

fun lit_match :: "bool \<Rightarrow> string \<Rightarrow> mstate \<Rightarrow> mstate option" where
  "lit_match ic [] st = Some st"
| "lit_match ic (c # cs) st =
     (case suf st of
        [] \<Rightarrow> None
      | x # xs \<Rightarrow> if char_eq ic c x then lit_match ic cs (st\<lparr>pre := x # pre st, suf := xs\<rparr>) else None)"

text \<open>
  Repetition. One more iteration is only accepted when it consumed input (an iteration
  that matches the empty string fails in ECMAScript), so the number of iterations is
  bounded by the length of the remaining input, which is the counter \<open>n\<close>.
\<close>

fun star_greedy ::
  "((mstate \<Rightarrow> 'r option) \<Rightarrow> mstate \<Rightarrow> 'r option) \<Rightarrow> (mstate \<Rightarrow> 'r option) \<Rightarrow> nat \<Rightarrow> mstate \<Rightarrow> 'r option" where
  "star_greedy f k 0 st = k st"
| "star_greedy f k (Suc n) st =
     (case f (\<lambda>st'. if length (suf st') < length (suf st) then star_greedy f k n st' else None) st of
        Some r \<Rightarrow> Some r
      | None \<Rightarrow> k st)"

fun star_lazy ::
  "((mstate \<Rightarrow> 'r option) \<Rightarrow> mstate \<Rightarrow> 'r option) \<Rightarrow> (mstate \<Rightarrow> 'r option) \<Rightarrow> nat \<Rightarrow> mstate \<Rightarrow> 'r option" where
  "star_lazy f k 0 st = k st"
| "star_lazy f k (Suc n) st =
     (case k st of
        Some r \<Rightarrow> Some r
      | None \<Rightarrow> f (\<lambda>st'. if length (suf st') < length (suf st) then star_lazy f k n st' else None) st)"

text \<open>The text captured between two states of the same match.\<close>

definition captured :: "mstate \<Rightarrow> mstate \<Rightarrow> string" where
  "captured st st' = rev (take (length (pre st') - length (pre st)) (pre st'))"

definition at_bol :: "bool \<Rightarrow> mstate \<Rightarrow> bool" where
  "at_bol ml st = (case pre st of [] \<Rightarrow> True | c # _ \<Rightarrow> ml \<and> is_line_terminator c)"

definition at_eol :: "bool \<Rightarrow> mstate \<Rightarrow> bool" where
  "at_eol ml st = (case suf st of [] \<Rightarrow> True | c # _ \<Rightarrow> ml \<and> is_line_terminator c)"

definition at_word_boundary :: "mstate \<Rightarrow> bool" where
  "at_word_boundary st =
     ((case pre st of [] \<Rightarrow> False | c # _ \<Rightarrow> is_word c) \<noteq>
      (case suf st of [] \<Rightarrow> False | c # _ \<Rightarrow> is_word c))"

text \<open>
  The matcher in continuation-passing style: \<open>rm ic ml r k st\<close> matches \<open>r\<close> at \<open>st\<close>
  and hands every end state, in priority order, to \<open>k\<close> until \<open>k\<close> succeeds.
  \<open>ic\<close> and \<open>ml\<close> are the flags \<^verbatim>\<open>i\<close> and \<^verbatim>\<open>m\<close>.
\<close>

primrec rm :: "bool \<Rightarrow> bool \<Rightarrow> regex \<Rightarrow> (mstate \<Rightarrow> 'r option) \<Rightarrow> mstate \<Rightarrow> 'r option" where
  "rm ic ml (Lit s) k st = (case lit_match ic s st of None \<Rightarrow> None | Some st' \<Rightarrow> k st')"
| "rm ic ml (Cls items) k st =
     (case suf st of
        [] \<Rightarrow> None
      | c # cs \<Rightarrow> if in_class ic items c then k (st\<lparr>pre := c # pre st, suf := cs\<rparr>) else None)"
| "rm ic ml (NCls items) k st =
     (case suf st of
        [] \<Rightarrow> None
      | c # cs \<Rightarrow> if \<not> in_class ic items c then k (st\<lparr>pre := c # pre st, suf := cs\<rparr>) else None)"
| "rm ic ml (Seq a b) k st = rm ic ml a (rm ic ml b k) st"
| "rm ic ml (Alt a b) k st =
     (case rm ic ml a k st of Some r \<Rightarrow> Some r | None \<Rightarrow> rm ic ml b k st)"
| "rm ic ml (Star r) k st = star_greedy (rm ic ml r) k (length (suf st)) st"
| "rm ic ml (LStar r) k st = star_lazy (rm ic ml r) k (length (suf st)) st"
| "rm ic ml (Opt r) k st =
     (case rm ic ml r (\<lambda>st'. if length (suf st') < length (suf st) then k st' else None) st of
        Some x \<Rightarrow> Some x
      | None \<Rightarrow> k st)"
| "rm ic ml (Grp n r) k st =
     rm ic ml r (\<lambda>st'. k (st'\<lparr>caps := (caps st')(n \<mapsto> captured st st')\<rparr>)) st"
| "rm ic ml Bol k st = (if at_bol ml st then k st else None)"
| "rm ic ml Eol k st = (if at_eol ml st then k st else None)"
| "rm ic ml WordB k st = (if at_word_boundary st then k st else None)"

text \<open>
  A compiled regular expression with its flags, and the result of a match:
  \<^verbatim>\<open>match.index\<close>, the index after the match, \<^verbatim>\<open>match[0]\<close> and the captures
  (\<^verbatim>\<open>match[n]\<close> is \<^verbatim>\<open>undefined\<close> where the map is undefined).
\<close>

record rx =
  rx_re :: regex
  rx_i :: bool
  rx_m :: bool

record rmatch =
  m_index :: nat
  m_end :: nat
  m_text :: string
  m_caps :: "nat \<Rightarrow> string option"

definition match_at :: "rx \<Rightarrow> string \<Rightarrow> string \<Rightarrow> rmatch option" where
  "match_at re p s =
     (let st = \<lparr>pre = p, suf = s, caps = Map.empty\<rparr> in
      rm (rx_i re) (rx_m re) (rx_re re)
         (\<lambda>st'. Some \<lparr>m_index = length p, m_end = length (pre st'),
                       m_text = captured st st', m_caps = caps st'\<rparr>) st)"

text \<open>The first match at or after the current position, trying each start in turn.\<close>

fun search :: "rx \<Rightarrow> string \<Rightarrow> string \<Rightarrow> rmatch option" where
  "search re p [] = match_at re p []"
| "search re p (c # cs) =
     (case match_at re p (c # cs) of Some m \<Rightarrow> Some m | None \<Rightarrow> search re (c # p) cs)"

text \<open>\<^verbatim>\<open>re.exec(s)\<close> with \<^verbatim>\<open>lastIndex = i\<close> (for a non-global expression \<open>i = 0\<close>).\<close>

definition exec_from :: "rx \<Rightarrow> string \<Rightarrow> nat \<Rightarrow> rmatch option" where
  "exec_from re s i = (if i > length s then None else search re (rev (take i s)) (drop i s))"

definition rx_test :: "rx \<Rightarrow> string \<Rightarrow> bool" where
  "rx_test re s = (exec_from re s 0 \<noteq> None)"

text \<open>
  The loop \<^verbatim>\<open>while ((match = re.exec(s)) !== null) { ... }\<close> over a global expression:
  each call starts at the end of the previous match. A match of the empty string leaves
  \<^verbatim>\<open>lastIndex\<close> where it was, and the loop never ends: the result is \<open>None\<close>.
  \<open>n\<close> bounds the number of matches and is the length of the string plus one.
\<close>

fun exec_loop :: "rx \<Rightarrow> string \<Rightarrow> nat \<Rightarrow> nat \<Rightarrow> rmatch list option" where
  "exec_loop re s i 0 = None"
| "exec_loop re s i (Suc n) =
     (case exec_from re s i of
        None \<Rightarrow> Some []
      | Some m \<Rightarrow>
          if m_end m = m_index m then None
          else (case exec_loop re s (m_end m) n of None \<Rightarrow> None | Some ms \<Rightarrow> Some (m # ms)))"

definition exec_all :: "rx \<Rightarrow> string \<Rightarrow> rmatch list option" where
  "exec_all re s = exec_loop re s 0 (Suc (length s))"

text \<open>
  \<^verbatim>\<open>s.replace(re, repl)\<close> with a replacement without \<^verbatim>\<open>$\<close> patterns. Without the
  \<^verbatim>\<open>g\<close> flag only the first match is replaced; with it every match is, and after an empty
  match the search moves on by one code unit.
\<close>

definition replace_first :: "rx \<Rightarrow> string \<Rightarrow> string \<Rightarrow> string" where
  "replace_first re s repl =
     (case exec_from re s 0 of
        None \<Rightarrow> s
      | Some m \<Rightarrow> take (m_index m) s @ repl @ drop (m_end m) s)"

fun replace_loop :: "rx \<Rightarrow> string \<Rightarrow> string \<Rightarrow> nat \<Rightarrow> nat \<Rightarrow> string" where
  "replace_loop re s repl i 0 = drop i s"
| "replace_loop re s repl i (Suc n) =
     (case exec_from re s i of
        None \<Rightarrow> drop i s
      | Some m \<Rightarrow>
          take (m_index m - i) (drop i s) @ repl @
          (if m_end m = m_index m
           then take 1 (drop (m_end m) s) @ replace_loop re s repl (Suc (m_end m)) n
           else replace_loop re s repl (m_end m) n))"

definition replace_all :: "rx \<Rightarrow> string \<Rightarrow> string \<Rightarrow> string" where
  "replace_all re s repl = replace_loop re s repl 0 (Suc (length s))"

text \<open>The least number of code units a match of an expression consumes.\<close>

primrec min_len :: "regex \<Rightarrow> nat" where
  "min_len (Lit s) = length s"
| "min_len (Cls items) = 1"
| "min_len (NCls items) = 1"
| "min_len (Seq a b) = min_len a + min_len b"
| "min_len (Alt a b) = min (min_len a) (min_len b)"
| "min_len (Star r) = 0"
| "min_len (LStar r) = 0"
| "min_len (Opt r) = 0"
| "min_len (Grp n r) = min_len r"
| "min_len Bol = 0"
| "min_len Eol = 0"
| "min_len WordB = 0"

text \<open>\<open>st'\<close> is \<open>st\<close> after consuming at least \<open>n\<close> code units.\<close>

definition extends :: "mstate \<Rightarrow> mstate \<Rightarrow> nat \<Rightarrow> bool" where
  "extends st st' n = (\<exists>w. n \<le> length w \<and> pre st' = rev w @ pre st \<and> suf st = w @ suf st')"

text \<open>
  \<^verbatim>\<open>s.split(re)\<close>: the separator is tried at each position \<open>q\<close> in turn; a match that
  ends where the current piece starts is skipped, any other match closes the piece.
  \<open>p\<close> is the input before \<open>q\<close> (latest first) and \<open>acc\<close> the current piece (latest
  first). The expressions the source splits with have no capture groups.
\<close>

function split_loop :: "rx \<Rightarrow> string \<Rightarrow> string \<Rightarrow> string \<Rightarrow> string list" where
  "split_loop re p acc [] = [rev acc]"
| "split_loop re p acc (c # cs) =
     (case match_at re p (c # cs) of
        None \<Rightarrow> split_loop re (c # p) (c # acc) cs
      | Some m \<Rightarrow>
          let n = m_end m - length p in
          if n = 0 \<and> acc = [] then split_loop re (c # p) (c # acc) cs
          else rev acc # split_loop re (rev (take n (c # cs)) @ p) [] (drop n (c # cs)))"
  by pat_completeness auto
termination
  by (relation "measure (\<lambda>(re, p, acc, s). 2 * length s + (if acc = [] then 0 else 1))") auto

definition split_re :: "rx \<Rightarrow> string \<Rightarrow> string list" where
  "split_re re s =
     (if s = [] then (case match_at re [] [] of None \<Rightarrow> [[]] | Some m \<Rightarrow> [])
      else split_loop re [] [] s)"


section \<open>Bracket validation (PatchEngine.validateSyntax, OutputParser.hasValidSyntax)\<close>

text \<open>
  Both validators walk the code once with a
  stack of expected closing brackets:
  \<^verbatim>\<open>const brackets = { '(': ')', '[': ']', '{': '}' };\<close>
\<close>

definition brackets :: "(char \<times> char) list" where
  "brackets = [(CHR ''('', CHR '')''), (CHR ''['', CHR '']''), (CHR ''{'', CHR ''}'')]"

text \<open>
  The loop body: \<^verbatim>\<open>if (char in brackets) stack.push(brackets[char])
  else if (Object.values(brackets).includes(char)) { if (stack.pop() !== char) return false; }\<close>
  and after the loop \<^verbatim>\<open>return stack.length === 0\<close>. The top of the stack is the head
  of the list; popping the empty stack yields \<^verbatim>\<open>undefined\<close>, which differs from every
  character.
\<close>

fun bracket_loop :: "string \<Rightarrow> char list \<Rightarrow> bool" where
  "bracket_loop [] stack = (length stack = 0)"
| "bracket_loop (c # cs) stack =
     (case map_of brackets c of
        Some closer \<Rightarrow> bracket_loop cs (closer # stack)
      | None \<Rightarrow>
          if c \<in> set (map snd brackets) then
            (case stack of
               [] \<Rightarrow> False
             | t # stack' \<Rightarrow> if t \<noteq> c then False else bracket_loop cs stack')
          else bracket_loop cs stack)"

definition validateSyntax :: "string \<Rightarrow> string \<Rightarrow> bool" where
  "validateSyntax code language = bracket_loop code []"

definition hasValidSyntax :: "string \<Rightarrow> string \<Rightarrow> bool" where
  "hasValidSyntax code language = bracket_loop code []"

text \<open>
  The specification side: the bracket characters, and the grammar of properly balanced,
  properly nested bracket sequences.
\<close>

definition is_bracket :: "char \<Rightarrow> bool" where
  "is_bracket c = (c \<in> set (map fst brackets) \<or> c \<in> set (map snd brackets))"

inductive balanced :: "string \<Rightarrow> bool" where
  bal_empty: "balanced []"
| bal_wrap: "balanced w \<Longrightarrow> (op, cl) \<in> set brackets \<Longrightarrow> balanced (op # w @ [cl])"
| bal_concat: "balanced v \<Longrightarrow> balanced w \<Longrightarrow> balanced (v @ w)"

text \<open>The opening bracket that expects a given closing bracket.\<close>

definition opener :: "char \<Rightarrow> char" where
  "opener c = (if c = CHR '')'' then CHR ''('' else if c = CHR '']'' then CHR ''['' else CHR ''{'')"

section \<open>OutputParser.cleanCode\<close>

text \<open>
  \<^verbatim>\<open>return code.replace(/^```(\w*)\n/, '').replace(/\n```$/g, '').trim();\<close>
\<close>

definition cleanCode_open_re :: rx where
  "cleanCode_open_re =
     \<lparr>rx_re = Seqs [Bol, Lit ''```'', Grp 1 (Star rx_w), Lit ''\<newline>''], rx_i = False, rx_m = False\<rparr>"

definition cleanCode_close_re :: rx where
  "cleanCode_close_re = \<lparr>rx_re = Seqs [Lit ''\<newline>```'', Eol], rx_i = False, rx_m = False\<rparr>"

definition cleanCode :: "string \<Rightarrow> string" where
  "cleanCode code = trim (replace_all cleanCode_close_re (replace_first cleanCode_open_re code []) [])"


section \<open>ProjectIndexer\<close>

subsection \<open>Host functions: paths\<close>

text \<open>
  \<^verbatim>\<open>path.basename\<close>, \<^verbatim>\<open>path.extname\<close> and \<^verbatim>\<open>path.relative\<close> belong to the Node
  runtime, not to the repository; they are modelled for POSIX paths. \<open>path_relative\<close>
  covers the case the indexer uses it for, a file below the root.
\<close>

definition path_basename :: "string \<Rightarrow> string" where
  "path_basename p =
     (let q = dropWhile (\<lambda>c. c = CHR ''/'') (rev p)
      in rev (takeWhile (\<lambda>c. c \<noteq> CHR ''/'') q))"

definition path_extname :: "string \<Rightarrow> string" where
  "path_extname p =
     (let b = path_basename p;
          e = rev (takeWhile (\<lambda>c. c \<noteq> CHR ''.'') (rev b))
      in if CHR ''.'' \<notin> set b \<or> length e + 1 = length b \<or> b = ''..'' then []
         else CHR ''.'' # e)"

definition path_basename_ext :: "string \<Rightarrow> string \<Rightarrow> string" where
  "path_basename_ext p ext =
     (let b = path_basename p
      in if ext \<noteq> [] \<and> suffix ext b \<and> ext \<noteq> b then take (length b - length ext) b else b)"

definition path_relative :: "string \<Rightarrow> string \<Rightarrow> string" where
  "path_relative rootDir p =
     (if prefix (rootDir @ ''/'') p then drop (length rootDir + 1) p else p)"

subsection \<open>Data\<close>

record FileIndex =
  fi_path :: string
  fi_relativePath :: string
  fi_exports :: "string list"
  fi_imports :: "string list"
  fi_classes :: "string list"
  fi_functions :: "string list"
  fi_interfaces :: "string list"
  fi_summary :: string
  fi_language :: string
  fi_lastModified :: nat
  fi_lineCount :: nat

text \<open>
  \<^verbatim>\<open>interface ProjectIndex { [fileName: string]: FileIndex }\<close>: a plain object, created
  by \<^verbatim>\<open>{}\<close>, used as a dictionary. \<^verbatim>\<open>Object.keys\<close> and \<^verbatim>\<open>Object.values\<close> enumerate
  its own properties: first the keys that are array indices, in ascending numeric order,
  then the other keys in the order of their creation. The model is the list of the own
  properties in that order.

  An array index is the canonical decimal form of a number below \<open>2^32 - 1\<close>.
\<close>

type_synonym ProjectIndex = "(string \<times> FileIndex) list"

definition is_array_index :: "string \<Rightarrow> bool" where
  "is_array_index k =
     (case k of
        [] \<Rightarrow> False
      | c # cs \<Rightarrow>
          list_all is_digit k \<and> (cs = [] \<or> c \<noteq> CHR ''0'') \<and>
          (length k < 10 \<or> (length k = 10 \<and> str_le k ''4294967294'')))"

text \<open>The numeric order of two array indices.\<close>

definition index_less :: "string \<Rightarrow> string \<Rightarrow> bool" where
  "index_less a b = (length a < length b \<or> (length a = length b \<and> a \<noteq> b \<and> str_le a b))"

text \<open>
  The assignment \<^verbatim>\<open>obj[k] = v\<close> with an object \<open>v\<close>. For the key \<^verbatim>\<open>__proto__\<close> it
  sets the prototype of \<open>obj\<close> and creates no property. A key that is present keeps
  its place and takes the new value. A new array index goes to its numeric place among
  the array indices at the front; any other new key goes to the end.
\<close>

fun obj_replace :: "(string \<times> 'v) list \<Rightarrow> string \<Rightarrow> 'v \<Rightarrow> (string \<times> 'v) list" where
  "obj_replace [] k v = []"
| "obj_replace ((k', v') # kvs) k v =
     (if k' = k then (k, v) # kvs else (k', v') # obj_replace kvs k v)"

fun obj_insert_index :: "(string \<times> 'v) list \<Rightarrow> string \<Rightarrow> 'v \<Rightarrow> (string \<times> 'v) list" where
  "obj_insert_index [] k v = [(k, v)]"
| "obj_insert_index ((k', v') # kvs) k v =
     (if is_array_index k' \<and> index_less k' k then (k', v') # obj_insert_index kvs k v
      else (k, v) # (k', v') # kvs)"

definition obj_set :: "(string \<times> 'v) list \<Rightarrow> string \<Rightarrow> 'v \<Rightarrow> (string \<times> 'v) list" where
  "obj_set obj k v =
     (if k = ''__proto__'' then obj
      else if k \<in> set (map fst obj) then obj_replace obj k v
      else if is_array_index k then obj_insert_index obj k v
      else obj @ [(k, v)])"

definition obj_values :: "(string \<times> 'v) list \<Rightarrow> 'v list" where
  "obj_values obj = map snd obj"

definition obj_keys :: "(string \<times> 'v) list \<Rightarrow> string list" where
  "obj_keys obj = map fst obj"

record IndexingOptions =
  maxFiles :: nat
  maxFileSize :: nat
  includePatterns :: "string list"
  excludePatterns :: "string list"
  enableASTParsing :: bool

text \<open>\<^verbatim>\<open>Partial<IndexingOptions>\<close>: every field may be absent.\<close>

record PartialIndexingOptions =
  p_maxFiles :: "nat option"
  p_maxFileSize :: "nat option"
  p_includePatterns :: "string list option"
  p_excludePatterns :: "string list option"
  p_enableASTParsing :: "bool option"

definition no_options :: PartialIndexingOptions where
  "no_options = \<lparr>p_maxFiles = None, p_maxFileSize = None, p_includePatterns = None,
                  p_excludePatterns = None, p_enableASTParsing = None\<rparr>"

record ParseResult =
  pr_exports :: "string list"
  pr_imports :: "string list"
  pr_classes :: "string list"
  pr_functions :: "string list"
  pr_interfaces :: "string list"

text \<open>\<^verbatim>\<open>[...new Set(xs)]\<close> keeps the first occurrence of each element, in order.\<close>

definition unique :: "'a list \<Rightarrow> 'a list" where
  "unique xs = rev (remdups (rev xs))"

text \<open>A number printed in decimal, as a template literal prints it.\<close>

fun digits_of :: "nat \<Rightarrow> nat \<Rightarrow> string" where
  "digits_of 0 n = []"
| "digits_of (Suc fuel) n =
     (if n < 10 then [char_of (48 + n)]
      else digits_of fuel (n div 10) @ [char_of (48 + n mod 10)])"

definition show_nat :: "nat \<Rightarrow> string" where
  "show_nat n = digits_of (Suc n) n"

subsection \<open>Symbol extraction by regular expressions\<close>

definition rxg :: "regex \<Rightarrow> rx" where
  "rxg r = \<lparr>rx_re = r, rx_i = False, rx_m = False\<rparr>"

text \<open>\<^verbatim>\<open>[a-zA-Z_][a-zA-Z0-9_]*\<close>, \<^verbatim>\<open>['"]\<close> and \<^verbatim>\<open>[^'"]+\<close>\<close>

definition rx_ident :: regex where
  "rx_ident = Seq (Cls [CRange CHR ''a'' CHR ''z'', CRange CHR ''A'' CHR ''Z'', CChar CHR ''_''])
                  (Star (Cls [CRange CHR ''a'' CHR ''z'', CRange CHR ''A'' CHR ''Z'',
                              CRange CHR ''0'' CHR ''9'', CChar CHR ''_'']))"

definition rx_quote :: regex where
  "rx_quote = Cls [CChar (CHR 0x27), CChar (CHR 0x22)]"

definition rx_unquoted :: regex where
  "rx_unquoted = Plus (NCls [CChar (CHR 0x27), CChar (CHR 0x22)])"

text \<open>
  The loop \<^verbatim>\<open>while ((match = pattern.exec(line)) !== null) out.push(match[1])\<close> for
  each pattern of a list in turn. Every pattern below has a first group that takes part
  in each match. \<open>None\<close>: the loop does not end.
\<close>

definition group1_all :: "rx \<Rightarrow> string \<Rightarrow> string list option" where
  "group1_all re line =
     map_option (\<lambda>ms. concat (map (\<lambda>m. case m_caps m 1 of None \<Rightarrow> [] | Some g \<Rightarrow> [g]) ms))
                (exec_all re line)"

fun collect_all :: "(string \<Rightarrow> string list option) list \<Rightarrow> string \<Rightarrow> string list option" where
  "collect_all [] line = Some []"
| "collect_all (f # fs) line =
     (case f line of
        None \<Rightarrow> None
      | Some xs \<Rightarrow> (case collect_all fs line of None \<Rightarrow> None | Some ys \<Rightarrow> Some (xs @ ys)))"

definition import_from_re :: rx where
  "import_from_re = rxg (Seqs [Lit ''import'', Plus rx_s, LStar rx_dot, Plus rx_s, Lit ''from'',
                               Plus rx_s, rx_quote, Grp 1 rx_unquoted, rx_quote])"

definition import_bare_re :: rx where
  "import_bare_re = rxg (Seqs [Lit ''import'', Plus rx_s, rx_quote, Grp 1 rx_unquoted, rx_quote])"

definition import_call_re :: rx where
  "import_call_re = rxg (Seqs [Lit ''import'', Star rx_s, Lit ''('', Star rx_s, rx_quote,
                               Grp 1 rx_unquoted, rx_quote, Star rx_s, Lit '')''])"

definition require_call_re :: rx where
  "require_call_re = rxg (Seqs [Lit ''require'', Star rx_s, Lit ''('', Star rx_s, rx_quote,
                                Grp 1 rx_unquoted, rx_quote, Star rx_s, Lit '')''])"

definition rx_dotted :: regex where
  "rx_dotted = Seq rx_ident (Star (Seq (Lit ''.'') rx_ident))"

definition py_import_re :: rx where
  "py_import_re = rxg (Seqs [Lit ''import'', Plus rx_s, Grp 1 rx_dotted])"

definition py_from_re :: rx where
  "py_from_re = rxg (Seqs [Lit ''from'', Plus rx_s, Grp 1 rx_dotted, Plus rx_s, Lit ''import''])"

definition import_patterns :: "string \<Rightarrow> rx list" where
  "import_patterns language =
     (if language = ''typescript'' then [import_from_re, import_bare_re, import_call_re]
      else if language = ''python'' then [py_import_re, py_from_re]
      else [import_from_re, import_bare_re, require_call_re])"

definition extractImports :: "string \<Rightarrow> string \<Rightarrow> string list option" where
  "extractImports line language = collect_all (map group1_all (import_patterns language)) line"

definition rx_export_head :: regex where
  "rx_export_head = Seqs [Lit ''export'', Plus rx_s, Opt (Seq (Lit ''default'') (Plus rx_s))]"

definition export_decl_ts_re :: rx where
  "export_decl_ts_re =
     rxg (Seqs [rx_export_head,
                Alts [Lit ''class'', Lit ''function'', Lit ''const'', Lit ''let'', Lit ''var'',
                      Lit ''enum'', Lit ''interface''],
                Plus rx_s, Grp 1 rx_ident])"

definition export_list_re :: rx where
  "export_list_re =
     rxg (Seqs [Lit ''export'', Star rx_s, Lit ''{'', Star rx_s,
                Grp 1 (Plus (NCls [CChar CHR ''}''])), Star rx_s, Lit ''}''])"

definition export_decl_js_re :: rx where
  "export_decl_js_re =
     rxg (Seqs [rx_export_head,
                Alts [Lit ''class'', Lit ''function'', Lit ''const'', Lit ''let'', Lit ''var''],
                Plus rx_s, Grp 1 rx_ident])"

definition module_exports_re :: rx where
  "module_exports_re =
     rxg (Seqs [Lit ''module.exports'', Star rx_s, Lit ''='', Star rx_s, Grp 1 rx_ident])"

definition export_patterns :: "string \<Rightarrow> rx list" where
  "export_patterns language =
     (if language = ''typescript'' then [export_decl_ts_re, export_list_re]
      else [export_decl_js_re, module_exports_re])"

text \<open>
  \<^verbatim>\<open>if (match[1].includes(',')) exports.push(...match[1].split(',').map(item => item.trim()))
  else exports.push(match[1])\<close>
\<close>

definition export_items :: "string \<Rightarrow> string list" where
  "export_items g = (if js_includes g '','' then map trim (js_split g '','') else [g])"

definition extractExports :: "string \<Rightarrow> string \<Rightarrow> string list option" where
  "extractExports line language =
     map_option (\<lambda>gs. concat (map export_items gs))
                (collect_all (map group1_all (export_patterns language)) line)"

definition rx_opt_kw :: "string \<Rightarrow> regex" where
  "rx_opt_kw w = Opt (Seq (Lit w) (Plus rx_s))"

definition rx_kw_s :: "string \<Rightarrow> regex" where
  "rx_kw_s w = Seq (Lit w) (Plus rx_s)"

definition class_patterns :: "string \<Rightarrow> rx list" where
  "class_patterns language =
     (if language = ''typescript'' then
        [rxg (Seqs [rx_opt_kw ''export'', rx_opt_kw ''abstract'', Lit ''class'', Plus rx_s, Grp 1 rx_ident])]
      else if language = ''python'' then
        [rxg (Seqs [Lit ''class'', Plus rx_s, Grp 1 rx_ident])]
      else if language = ''java'' then
        [rxg (Seqs [Opt (Alts [rx_kw_s ''public'', rx_kw_s ''private'', rx_kw_s ''protected'']),
                    Lit ''class'', Plus rx_s, Grp 1 rx_ident])]
      else if language = ''csharp'' then
        [rxg (Seqs [Opt (Alts [rx_kw_s ''public'', rx_kw_s ''private'', rx_kw_s ''protected'',
                               rx_kw_s ''internal'']),
                    Lit ''class'', Plus rx_s, Grp 1 rx_ident])]
      else
        [rxg (Seqs [rx_opt_kw ''export'', Lit ''class'', Plus rx_s, Grp 1 rx_ident])])"

definition extractClasses :: "string \<Rightarrow> string \<Rightarrow> string list option" where
  "extractClasses line language = collect_all (map group1_all (class_patterns language)) line"

definition function_decl_re :: rx where
  "function_decl_re =
     rxg (Seqs [rx_opt_kw ''export'', rx_opt_kw ''async'', Lit ''function'', Plus rx_s, Grp 1 rx_ident])"

definition method_decl_re :: rx where
  "method_decl_re =
     rxg (Seqs [Alts [Lit ''public'', Lit ''private'', Lit ''protected''], Plus rx_s,
                rx_opt_kw ''async'', Grp 1 rx_ident, Star rx_s, Lit ''(''])"

definition function_assign_re :: rx where
  "function_assign_re =
     rxg (Seqs [Grp 1 rx_ident, Star rx_s, Cls [CChar CHR '':'', CChar CHR ''=''], Star rx_s,
                rx_opt_kw ''async'', Lit ''(''])"

definition function_patterns :: "string \<Rightarrow> rx list" where
  "function_patterns language =
     (if language = ''typescript'' then [function_decl_re, method_decl_re, function_assign_re]
      else if language = ''python'' then
        [rxg (Seqs [rx_opt_kw ''async'', Lit ''def'', Plus rx_s, Grp 1 rx_ident])]
      else [function_decl_re, function_assign_re])"

definition extractFunctions :: "string \<Rightarrow> string \<Rightarrow> string list option" where
  "extractFunctions line language = collect_all (map group1_all (function_patterns language)) line"

definition interface_patterns :: "string \<Rightarrow> rx list" where
  "interface_patterns language =
     (if language = ''typescript'' then
        [rxg (Seqs [rx_opt_kw ''export'', Lit ''interface'', Plus rx_s, Grp 1 rx_ident])]
      else if language = ''java'' then
        [rxg (Seqs [rx_opt_kw ''public'', Lit ''interface'', Plus rx_s, Grp 1 rx_ident])]
      else if language = ''csharp'' then
        [rxg (Seqs [Opt (Alts [rx_kw_s ''public'', rx_kw_s ''internal'']),
                    Lit ''interface'', Plus rx_s, Grp 1 rx_ident])]
      else [])"

definition extractInterfaces :: "string \<Rightarrow> string \<Rightarrow> string list option" where
  "extractInterfaces line language = collect_all (map group1_all (interface_patterns language)) line"

subsection \<open>Parsing a file\<close>

text \<open>
  \<open>parseFileContent\<close> handles each line that is not blank and does not start a comment,
  then removes duplicates. \<open>None\<close> stands for a call that does not return.
\<close>

definition empty_parse :: ParseResult where
  "empty_parse = \<lparr>pr_exports = [], pr_imports = [], pr_classes = [], pr_functions = [],
                   pr_interfaces = []\<rparr>"

definition parse_line :: "string \<Rightarrow> string \<Rightarrow> ParseResult \<Rightarrow> ParseResult option" where
  "parse_line line language result =
     (let trimmed = trim line in
      if trimmed = [] \<or> startsWith trimmed ''//'' \<or> startsWith trimmed ''/*'' then Some result
      else do {
        imports \<leftarrow> extractImports trimmed language;
        exports \<leftarrow> extractExports trimmed language;
        classes \<leftarrow> extractClasses trimmed language;
        functions \<leftarrow> extractFunctions trimmed language;
        interfaces \<leftarrow> extractInterfaces trimmed language;
        Some \<lparr>pr_exports = pr_exports result @ exports,
              pr_imports = pr_imports result @ imports,
              pr_classes = pr_classes result @ classes,
              pr_functions = pr_functions result @ functions,
              pr_interfaces = pr_interfaces result @ interfaces\<rparr>
      })"

fun parse_lines :: "string list \<Rightarrow> string \<Rightarrow> ParseResult \<Rightarrow> ParseResult option" where
  "parse_lines [] language result = Some result"
| "parse_lines (line # lines) language result =
     (case parse_line line language result of
        None \<Rightarrow> None
      | Some result' \<Rightarrow> parse_lines lines language result')"

definition parseFileContent :: "string \<Rightarrow> string \<Rightarrow> ParseResult option" where
  "parseFileContent content language =
     map_option (\<lambda>r. \<lparr>pr_exports = unique (pr_exports r), pr_imports = unique (pr_imports r),
                       pr_classes = unique (pr_classes r), pr_functions = unique (pr_functions r),
                       pr_interfaces = unique (pr_interfaces r)\<rparr>)
                (parse_lines (js_split content ''\<newline>'') language empty_parse)"

text \<open>The fallback extractors. \<^verbatim>\<open>line.match(re)\<close> without \<^verbatim>\<open>g\<close> is the first match.\<close>

definition first_group1 :: "rx \<Rightarrow> string \<Rightarrow> string list" where
  "first_group1 re line =
     (case exec_from re line 0 of
        None \<Rightarrow> []
      | Some m \<Rightarrow> (case m_caps m 1 of None \<Rightarrow> [] | Some g \<Rightarrow> [g]))"

definition extractExportsSimple :: "string \<Rightarrow> string \<Rightarrow> string list" where
  "extractExportsSimple content language =
     unique (concat (map (\<lambda>line. if js_includes line ''export'' then first_group1 export_decl_js_re line else [])
                         (take 100 (js_split content ''\<newline>''))))"

definition import_simple_re :: rx where
  "import_simple_re =
     rxg (Seqs [Alt (Seqs [Lit ''import'', Star rx_dot, Lit ''from'', Plus rx_s])
                    (Seqs [Lit ''require'', Star rx_s, Lit ''('', Star rx_s]),
                rx_quote, Grp 1 rx_unquoted, rx_quote])"

definition extractImportsSimple :: "string \<Rightarrow> string \<Rightarrow> string list" where
  "extractImportsSimple content language =
     unique (concat (map (\<lambda>line. if js_includes line ''import'' \<or> js_includes line ''require''
                                  then first_group1 import_simple_re line else [])
                         (take 50 (js_split content ''\<newline>''))))"

definition extractClassesSimple :: "string \<Rightarrow> string \<Rightarrow> string list option" where
  "extractClassesSimple content language =
     map_option unique (group1_all (rxg (Seqs [Lit ''class'', Plus rx_s, Grp 1 rx_ident])) content)"

definition extractFunctionsSimple :: "string \<Rightarrow> string \<Rightarrow> string list option" where
  "extractFunctionsSimple content language =
     map_option unique (group1_all (rxg (Seqs [Lit ''function'', Plus rx_s, Grp 1 rx_ident])) content)"

definition extractInterfacesSimple :: "string \<Rightarrow> string \<Rightarrow> string list option" where
  "extractInterfacesSimple content language =
     map_option unique (group1_all (rxg (Seqs [Lit ''interface'', Plus rx_s, Grp 1 rx_ident])) content)"

definition parseFileContentSimple :: "string \<Rightarrow> string \<Rightarrow> ParseResult option" where
  "parseFileContentSimple content language =
     do {
       classes \<leftarrow> extractClassesSimple content language;
       functions \<leftarrow> extractFunctionsSimple content language;
       interfaces \<leftarrow> extractInterfacesSimple content language;
       Some \<lparr>pr_exports = extractExportsSimple content language,
             pr_imports = extractImportsSimple content language,
             pr_classes = classes, pr_functions = functions, pr_interfaces = interfaces\<rparr>
     }"

text \<open>
  \<^verbatim>\<open>`${n} class${n > 1 ? 'es' : ''}: ${names.slice(0, 3).join(', ')}`\<close> and its siblings.
\<close>

definition summary_part :: "string list \<Rightarrow> string \<Rightarrow> string \<Rightarrow> nat \<Rightarrow> string list" where
  "summary_part names noun plural shown =
     (if length names > 0
      then [show_nat (length names) @ '' '' @ noun @ (if length names > 1 then plural else [])
            @ '': '' @ js_join (take shown names) '', '']
      else [])"

definition generateFileSummary :: "string \<Rightarrow> ParseResult \<Rightarrow> string \<Rightarrow> string" where
  "generateFileSummary content parseResult language =
     (let summary = summary_part (pr_classes parseResult) ''class'' ''es'' 3
                  @ summary_part (pr_functions parseResult) ''function'' ''s'' 3
                  @ summary_part (pr_interfaces parseResult) ''interface'' ''s'' 2;
          lineCount = length (js_split content ''\<newline>'');
          baseInfo = language @ '' file with '' @ show_nat lineCount @ '' lines''
      in if length summary > 0 then baseInfo @ ''. '' @ js_join summary '', '' else baseInfo)"

definition languageMap :: "(string \<times> string) list" where
  "languageMap =
     [(''.ts'', ''typescript''), (''.tsx'', ''typescript''), (''.js'', ''javascript''),
      (''.jsx'', ''javascript''), (''.py'', ''python''), (''.java'', ''java''),
      (''.cpp'', ''cpp''), (''.cxx'', ''cpp''), (''.cc'', ''cpp''), (''.c'', ''c''),
      (''.h'', ''c''), (''.cs'', ''csharp''), (''.php'', ''php''), (''.rb'', ''ruby''),
      (''.go'', ''go''), (''.rs'', ''rust''), (''.swift'', ''swift''), (''.kt'', ''kotlin''),
      (''.scala'', ''scala'')]"

definition detectLanguage :: "string \<Rightarrow> string" where
  "detectLanguage filePath =
     (case map_of languageMap (toLowerCase (path_extname filePath)) of
        Some l \<Rightarrow> l
      | None \<Rightarrow> ''text'')"

subsection \<open>The indexer and its host\<close>

text \<open>
  What the indexer reads from its host: the workspace folder of the active editor and the
  first workspace folder (either may be missing), the files a glob pattern yields (or the
  error it raises), the size and modification time of a file (\<open>None\<close>: \<^verbatim>\<open>statSync\<close>
  throws), the text of a file (\<open>None\<close>: \<^verbatim>\<open>readFileSync\<close> throws), and the clock.
\<close>

datatype js_error = TypeError | HostError string

record host =
  h_activeFolder :: "string option"
  h_firstFolder :: "string option"
  h_glob :: "string \<Rightarrow> string \<Rightarrow> string list \<Rightarrow> js_error + string list"
  h_stat :: "string \<Rightarrow> (nat \<times> nat) option"
  h_read :: "string \<Rightarrow> string option"
  h_now :: nat

record indexer =
  projectIndex :: ProjectIndex
  isIndexing :: bool
  lastIndexTime :: nat
  workspaceRoot :: string

definition new_indexer :: "host \<Rightarrow> indexer" where
  "new_indexer h =
     \<lparr>projectIndex = [], isIndexing = False, lastIndexTime = 0,
      workspaceRoot = (case h_activeFolder h of
                         Some r \<Rightarrow> r
                       | None \<Rightarrow> (case h_firstFolder h of Some r \<Rightarrow> r | None \<Rightarrow> []))\<rparr>"

definition updateWorkspaceRoot :: "host \<Rightarrow> indexer \<Rightarrow> indexer" where
  "updateWorkspaceRoot h st =
     st\<lparr>workspaceRoot := (case h_activeFolder h of
                             Some r \<Rightarrow> r
                           | None \<Rightarrow> (case h_firstFolder h of Some r \<Rightarrow> r | None \<Rightarrow> []))\<rparr>"

definition default_options :: IndexingOptions where
  "default_options =
     \<lparr>maxFiles = 1000, maxFileSize = 1024 * 1024,
      includePatterns = [''**/*.ts'', ''**/*.tsx'', ''**/*.js'', ''**/*.jsx'', ''**/*.py'',
                         ''**/*.java'', ''**/*.cpp'', ''**/*.c'', ''**/*.cs'', ''**/*.php'',
                         ''**/*.rb'', ''**/*.go'', ''**/*.rs'', ''**/*.swift'', ''**/*.kt'',
                         ''**/*.scala''],
      excludePatterns = [''**/node_modules/**'', ''**/dist/**'', ''**/build/**'', ''**/.git/**'',
                         ''**/coverage/**'', ''**/*.min.js'', ''**/*.d.ts''],
      enableASTParsing = True\<rparr>"

definition final_options :: "PartialIndexingOptions \<Rightarrow> IndexingOptions" where
  "final_options options =
     \<lparr>maxFiles = (case p_maxFiles options of Some v \<Rightarrow> v | None \<Rightarrow> maxFiles default_options),
      maxFileSize = (case p_maxFileSize options of Some v \<Rightarrow> v | None \<Rightarrow> maxFileSize default_options),
      includePatterns = (case p_includePatterns options of Some v \<Rightarrow> v
                         | None \<Rightarrow> includePatterns default_options),
      excludePatterns = (case p_excludePatterns options of Some v \<Rightarrow> v
                         | None \<Rightarrow> excludePatterns default_options),
      enableASTParsing = (case p_enableASTParsing options of Some v \<Rightarrow> v
                          | None \<Rightarrow> enableASTParsing default_options)\<rparr>"

text \<open>
  \<open>findFiles\<close>: the glob results of all patterns (a failing pattern is skipped), without
  duplicates, sorted, cut to \<open>maxFiles\<close>; then the files that can be stat'ed and are not
  larger than \<open>maxFileSize\<close>.
\<close>

definition findFiles :: "host \<Rightarrow> IndexingOptions \<Rightarrow> indexer \<Rightarrow> string list" where
  "findFiles h options st =
     (if workspaceRoot st = [] then []
      else
        let allFiles = concat (map (\<lambda>pattern.
                           case h_glob h pattern (workspaceRoot st) (excludePatterns options) of
                             Inl e \<Rightarrow> []
                           | Inr files \<Rightarrow> files) (includePatterns options));
            uniqueFiles = js_sort (unique allFiles)
        in filter (\<lambda>file. case h_stat h file of
                             None \<Rightarrow> False
                           | Some (sz, mtime) \<Rightarrow> sz \<le> maxFileSize options)
                  (take (maxFiles options) uniqueFiles))"

text \<open>
  \<open>indexFile\<close> catches every error of its body and returns \<^verbatim>\<open>null\<close> then: the inner
  \<open>None\<close>. The outer \<open>None\<close> is a call that does not return.
\<close>

definition indexFile :: "host \<Rightarrow> string \<Rightarrow> IndexingOptions \<Rightarrow> indexer \<Rightarrow> FileIndex option option" where
  "indexFile h filePath options st =
     (case h_stat h filePath of
        None \<Rightarrow> Some None
      | Some (sz, mtime) \<Rightarrow>
          (case h_read h filePath of
             None \<Rightarrow> Some None
           | Some content \<Rightarrow>
               let language = detectLanguage filePath;
                   relativePath = path_relative (workspaceRoot st) filePath
               in (case (if enableASTParsing options then parseFileContent content language
                         else parseFileContentSimple content language) of
                     None \<Rightarrow> None
                   | Some parseResult \<Rightarrow>
                       Some (Some \<lparr>fi_path = filePath,
                                   fi_relativePath = relativePath,
                                   fi_exports = pr_exports parseResult,
                                   fi_imports = pr_imports parseResult,
                                   fi_classes = pr_classes parseResult,
                                   fi_functions = pr_functions parseResult,
                                   fi_interfaces = pr_interfaces parseResult,
                                   fi_summary = generateFileSummary content parseResult language,
                                   fi_language = language,
                                   fi_lastModified = mtime,
                                   fi_lineCount = length (js_split content ''\<newline>'')\<rparr>))))"

text \<open>
  One turn of the loop in \<open>buildIndex\<close>, after \<open>indexFile\<close> has returned:
  \<^verbatim>\<open>if (fileIndex) { this.projectIndex[path.basename(filePath)] = fileIndex; processed++; }\<close>
\<close>

definition store_file :: "string \<Rightarrow> FileIndex option \<Rightarrow> indexer \<Rightarrow> indexer" where
  "store_file filePath fileIndex st =
     (case fileIndex of
        None \<Rightarrow> st
      | Some fi \<Rightarrow> st\<lparr>projectIndex := obj_set (projectIndex st) (path_basename filePath) fi\<rparr>)"

fun index_files :: "host \<Rightarrow> IndexingOptions \<Rightarrow> string list \<Rightarrow> indexer \<Rightarrow> indexer option" where
  "index_files h options [] st = Some st"
| "index_files h options (filePath # files) st =
     (case indexFile h filePath options st of
        None \<Rightarrow> None
      | Some fileIndex \<Rightarrow> index_files h options files (store_file filePath fileIndex st))"

text \<open>
  \<open>buildIndex\<close> run from call to return without another task in between. The result is
  the returned index and the indexer afterwards; \<open>None\<close>: the call does not return.
\<close>

definition buildIndex :: "host \<Rightarrow> PartialIndexingOptions \<Rightarrow> indexer \<Rightarrow> (ProjectIndex \<times> indexer) option" where
  "buildIndex h options st =
     (if isIndexing st then Some (projectIndex st, st)
      else
        let st1 = (updateWorkspaceRoot h st)\<lparr>isIndexing := True\<rparr>;
            finalOptions = final_options options;
            files = findFiles h finalOptions st1
        in (case index_files h finalOptions files (st1\<lparr>projectIndex := []\<rparr>) of
              None \<Rightarrow> None
            | Some st2 \<Rightarrow>
                let st3 = st2\<lparr>lastIndexTime := h_now h\<rparr>
                in Some (projectIndex st3, st3\<lparr>isIndexing := False\<rparr>)))"

definition getIndex :: "indexer \<Rightarrow> ProjectIndex" where
  "getIndex st = projectIndex st"

definition isIndexed :: "indexer \<Rightarrow> bool" where
  "isIndexed st = (length (obj_keys (projectIndex st)) > 0)"

text \<open>A file fails to index exactly when it cannot be stat'ed or cannot be read.\<close>

definition unreadable :: "host \<Rightarrow> string \<Rightarrow> bool" where
  "unreadable h filePath = (h_stat h filePath = None \<or> h_read h filePath = None)"

text \<open>A file whose record ends up as a property of the index.\<close>

definition recorded :: "host \<Rightarrow> string \<Rightarrow> bool" where
  "recorded h filePath = (\<not> unreadable h filePath \<and> path_basename filePath \<noteq> ''__proto__'')"


subsection \<open>buildIndex as an asynchronous task\<close>

text \<open>
  \<open>buildIndex\<close> is an \<^verbatim>\<open>async\<close> function: it runs until its next \<^verbatim>\<open>await\<close> and is
  resumed later, and between the two any other task may run, among them another call of
  \<open>buildIndex\<close> or a reader of the index. The points where a running build waits:
  for \<open>findFiles\<close>; inside the loop for \<open>indexFile\<close> of one file (whose result is
  then known, with the files still to do); and for the progress notification to close.
\<close>

datatype build_task =
    AwaitFindFiles IndexingOptions
  | AwaitIndexFile IndexingOptions string "FileIndex option" "string list"
  | AwaitProgress

text \<open>
  \<^verbatim>\<open>this.projectIndex\<close> refers to an object, and \<open>buildIndex\<close> and \<open>getIndex\<close> return
  that reference, not a copy: whoever holds it sees what is stored in the object later.
  The objects are numbered in the order of their creation. \<open>projectIndex (ix s)\<close> is
  the content of the object \<^verbatim>\<open>this.projectIndex\<close> refers to now, the current one;
  \<open>old s\<close> are the contents of the objects it referred to before, oldest first. Only
  the current object is ever written to.
\<close>

record indexer_sys =
  ix :: indexer
  old :: "ProjectIndex list"
  task :: "build_task option"

definition cur :: "indexer_sys \<Rightarrow> nat" where
  "cur s = length (old s)"

text \<open>The content, in state \<open>s\<close>, of the object with number \<open>r\<close>.\<close>

definition deref :: "indexer_sys \<Rightarrow> nat \<Rightarrow> ProjectIndex" where
  "deref s r = (if r < length (old s) then old s ! r else projectIndex (ix s))"

datatype call_result = Returned nat | Pending

text \<open>
  A call of \<open>buildIndex\<close> up to its first \<^verbatim>\<open>await\<close>:
  \<^verbatim>\<open>if (this.isIndexing) { this.log(...); return this.projectIndex; }\<close>,
  otherwise the workspace root is updated, \<open>isIndexing\<close> is set and the call waits for
  \<open>findFiles\<close>.
\<close>

definition buildIndex_call :: "host \<Rightarrow> PartialIndexingOptions \<Rightarrow> indexer_sys \<Rightarrow> call_result \<times> indexer_sys" where
  "buildIndex_call h options s =
     (if isIndexing (ix s) then (Returned (cur s), s)
      else (Pending, s\<lparr>ix := (updateWorkspaceRoot h (ix s))\<lparr>isIndexing := True\<rparr>,
                         task := Some (AwaitFindFiles (final_options options))\<rparr>))"

text \<open>\<^verbatim>\<open>getIndex() { return this.projectIndex; }\<close>\<close>

definition getIndex_call :: "indexer_sys \<Rightarrow> call_result \<times> indexer_sys" where
  "getIndex_call s = (Returned (cur s), s)"

text \<open>
  The head of the loop: with no file left the loop ends and the build waits for the
  notification; otherwise \<open>indexFile\<close> runs for the next file (it has no \<^verbatim>\<open>await\<close> of
  its own) and the build waits for its promise.
\<close>

definition next_file :: "host \<Rightarrow> IndexingOptions \<Rightarrow> string list \<Rightarrow> indexer \<Rightarrow> build_task option" where
  "next_file h options files st =
     (case files of
        [] \<Rightarrow> Some AwaitProgress
      | filePath # rest \<Rightarrow>
          (case indexFile h filePath options st of
             None \<Rightarrow> None
           | Some fileIndex \<Rightarrow> Some (AwaitIndexFile options filePath fileIndex rest)))"

text \<open>
  Resuming the build in flight. After \<open>findFiles\<close>: \<^verbatim>\<open>this.projectIndex = {}\<close>, a new
  object, and the loop starts. After \<open>indexFile\<close>: the record is stored in the current
  object and the loop goes on. After the notification: \<open>lastIndexTime\<close> is set, the
  current object is returned to the first caller and \<^verbatim>\<open>finally\<close> clears \<open>isIndexing\<close>.
  \<open>None\<close>: nothing to resume, or a step that does not return.
\<close>

definition build_resume :: "host \<Rightarrow> indexer_sys \<Rightarrow> indexer_sys option" where
  "build_resume h s =
     (case task s of
        None \<Rightarrow> None
      | Some (AwaitFindFiles options) \<Rightarrow>
          let files = findFiles h options (ix s);
              st = (ix s)\<lparr>projectIndex := []\<rparr>
          in map_option (\<lambda>t. \<lparr>ix = st, old = old s @ [projectIndex (ix s)], task = Some t\<rparr>)
                        (next_file h options files st)
      | Some (AwaitIndexFile options filePath fileIndex rest) \<Rightarrow>
          let st = store_file filePath fileIndex (ix s)
          in map_option (\<lambda>t. \<lparr>ix = st, old = old s, task = Some t\<rparr>) (next_file h options rest st)
      | Some AwaitProgress \<Rightarrow>
          Some \<lparr>ix = (ix s)\<lparr>lastIndexTime := h_now h, isIndexing := False\<rparr>, old = old s,
                task = None\<rparr>)"

text \<open>
  A schedule is a list of events: a call of \<open>buildIndex\<close>, a call of \<open>getIndex\<close> by a
  reader, or the resumption of the build in flight. Running it yields what each call
  returned.
\<close>

datatype event = CallBuildIndex PartialIndexingOptions | CallGetIndex | Resume

fun run_events :: "host \<Rightarrow> event list \<Rightarrow> indexer_sys \<Rightarrow> (call_result list \<times> indexer_sys) option" where
  "run_events h [] s = Some ([], s)"
| "run_events h (CallBuildIndex options # es) s =
     (case buildIndex_call h options s of
        (r, s') \<Rightarrow> map_option (\<lambda>(rs, s''). (r # rs, s'')) (run_events h es s'))"
| "run_events h (CallGetIndex # es) s =
     (case getIndex_call s of
        (r, s') \<Rightarrow> map_option (\<lambda>(rs, s''). (r # rs, s'')) (run_events h es s'))"
| "run_events h (Resume # es) s =
     (case build_resume h s of
        None \<Rightarrow> None
      | Some s' \<Rightarrow> run_events h es s')"

text \<open>An indexer system with no build in flight.\<close>

definition idle :: "indexer_sys \<Rightarrow> bool" where
  "idle s = (\<not> isIndexing (ix s) \<and> task s = None)"


section \<open>SmartFileResolver\<close>

datatype match_type = Exact | ClassMatch | FunctionMatch | ExportMatch | Fuzzy

subsection \<open>Numbers\<close>

text \<open>
  Scores are JavaScript numbers, IEEE 754 doubles. A finite double is represented by the
  rational it denotes, and each operation rounds its exact result to the nearest double,
  ties to the even significand. \<open>round_double\<close> does this for the normal range (a
  significand of 53 bits, no overflow and no gradual underflow), in which all numbers of
  the resolver lie: they are quotients of two string lengths times constants between 0.4
  and 1. \<open>bit_length n\<close> is the number of binary digits of a positive integer.
\<close>

function bit_length :: "int \<Rightarrow> nat" where
  "bit_length n = (if n \<le> 0 then 0 else Suc (bit_length (n div 2)))"
  by pat_completeness auto
termination by (relation "measure nat") auto

definition pow2 :: "int \<Rightarrow> rat" where
  "pow2 e = (if 0 \<le> e then 2 ^ nat e else 1 / 2 ^ nat (- e))"

definition round_half_even :: "rat \<Rightarrow> int" where
  "round_half_even n =
     (let f = \<lfloor>n\<rfloor>; d = n - of_int f
      in if d < 1 / 2 then f else if 1 / 2 < d then f + 1 else if even f then f else f + 1)"

definition round_double :: "rat \<Rightarrow> rat" where
  "round_double x =
     (if x = 0 then 0
      else
        let a = \<bar>x\<bar>;
            e0 = int (bit_length (fst (quotient_of a))) - int (bit_length (snd (quotient_of a)));
            e = (if pow2 e0 \<le> a then e0 else e0 - 1);
            ulp = pow2 (e - 52)
        in sgn x * of_int (round_half_even (a / ulp)) * ulp)"

text \<open>A decimal literal, the quotient and the product of two doubles.\<close>

definition dbl :: "rat \<Rightarrow> rat" where
  "dbl x = round_double x"

definition fdiv :: "rat \<Rightarrow> rat \<Rightarrow> rat" where
  "fdiv a b = round_double (a / b)"

definition fmul :: "rat \<Rightarrow> rat \<Rightarrow> rat" where
  "fmul a b = round_double (a * b)"

text \<open>\<^verbatim>\<open>s.length\<close> as a number.\<close>

definition len :: "string \<Rightarrow> rat" where
  "len s = of_nat (length s)"

subsection \<open>Matches and options\<close>

record FileMatch =
  fm_file :: FileIndex
  fm_score :: rat
  fm_matchType :: match_type
  fm_matchReason :: string

record ResolverOptions =
  maxResults :: nat
  minScore :: rat
  enableFuzzyMatching :: bool
  prioritizeExactMatches :: bool

record PartialResolverOptions =
  p_maxResults :: "nat option"
  p_minScore :: "rat option"
  p_enableFuzzyMatching :: "bool option"
  p_prioritizeExactMatches :: "bool option"

definition resolver_options :: "PartialResolverOptions \<Rightarrow> ResolverOptions" where
  "resolver_options options =
     \<lparr>maxResults = (case p_maxResults options of Some v \<Rightarrow> v | None \<Rightarrow> 10),
      minScore = (case p_minScore options of Some v \<Rightarrow> v | None \<Rightarrow> dbl (1 / 10)),
      enableFuzzyMatching = (case p_enableFuzzyMatching options of Some v \<Rightarrow> v | None \<Rightarrow> True),
      prioritizeExactMatches = (case p_prioritizeExactMatches options of Some v \<Rightarrow> v | None \<Rightarrow> True)\<rparr>"

subsection \<open>extractIdentifiers\<close>

definition rx_alnum :: regex where
  "rx_alnum = Cls [CRange CHR ''a'' CHR ''z'', CRange CHR ''A'' CHR ''Z'', CRange CHR ''0'' CHR ''9'']"

definition rx_letter :: regex where
  "rx_letter = Cls [CRange CHR ''a'' CHR ''z'', CRange CHR ''A'' CHR ''Z'']"

text \<open>
  \<^verbatim>\<open>/\b[A-Z][a-zA-Z0-9]*(?:Service|Controller|Manager|Handler|Provider|Repository|Model|Entity|Component|Interface|Class)\b/g\<close>
\<close>

definition class_name_re :: rx where
  "class_name_re =
     rxg (Seqs [WordB, Cls [CRange CHR ''A'' CHR ''Z''], Star rx_alnum,
                Alts [Lit ''Service'', Lit ''Controller'', Lit ''Manager'', Lit ''Handler'',
                      Lit ''Provider'', Lit ''Repository'', Lit ''Model'', Lit ''Entity'',
                      Lit ''Component'', Lit ''Interface'', Lit ''Class''],
                WordB])"

text \<open>\<^verbatim>\<open>/\b[A-Z][a-zA-Z0-9]{2,}\b/g\<close> and \<^verbatim>\<open>/\b[a-z][a-zA-Z0-9]{2,}\b/g\<close>\<close>

definition pascal_case_re :: rx where
  "pascal_case_re =
     rxg (Seqs [WordB, Cls [CRange CHR ''A'' CHR ''Z''], rx_alnum, rx_alnum, Star rx_alnum, WordB])"

definition camel_case_re :: rx where
  "camel_case_re =
     rxg (Seqs [WordB, Cls [CRange CHR ''a'' CHR ''z''], rx_alnum, rx_alnum, Star rx_alnum, WordB])"

text \<open>\<^verbatim>\<open>/\b[a-z][a-z0-9_]+[a-z0-9]\b/g\<close>\<close>

definition snake_case_re :: rx where
  "snake_case_re =
     rxg (Seqs [WordB, Cls [CRange CHR ''a'' CHR ''z''],
                Plus (Cls [CRange CHR ''a'' CHR ''z'', CRange CHR ''0'' CHR ''9'', CChar CHR ''_'']),
                Cls [CRange CHR ''a'' CHR ''z'', CRange CHR ''0'' CHR ''9''], WordB])"

text \<open>
  \<^verbatim>\<open>/\b[a-zA-Z0-9_-]+\.[a-zA-Z]{1,4}\b/g\<close>; the bounded repetition \<^verbatim>\<open>{1,4}\<close> is one
  letter followed by up to three optional ones, the longest first.
\<close>

definition file_name_re :: rx where
  "file_name_re =
     rxg (Seqs [WordB,
                Plus (Cls [CRange CHR ''a'' CHR ''z'', CRange CHR ''A'' CHR ''Z'',
                           CRange CHR ''0'' CHR ''9'', CChar CHR ''_'', CChar CHR ''-'']),
                Lit ''.'', rx_letter,
                Opt (Seq rx_letter (Opt (Seq rx_letter (Opt rx_letter)))),
                WordB])"

definition identifier_patterns :: "rx list" where
  "identifier_patterns = [class_name_re, pascal_case_re, camel_case_re, snake_case_re, file_name_re]"

text \<open>\<^verbatim>\<open>/[\s,\.;:!?\-_]+/\<close>\<close>

definition delimiter_re :: rx where
  "delimiter_re =
     rxg (Plus (Cls [CSpace, CChar CHR '','', CChar CHR ''.'', CChar CHR '';'', CChar CHR '':'',
                     CChar CHR ''!'', CChar CHR ''?'', CChar CHR ''-'', CChar CHR ''_'']))"

definition commonWords :: "string list" where
  "commonWords =
     [''the'', ''and'', ''or'', ''but'', ''in'', ''on'', ''at'', ''to'', ''for'', ''of'', ''with'',
      ''by'', ''from'', ''up'', ''about'', ''into'', ''through'', ''during'', ''before'', ''after'',
      ''above'', ''below'', ''between'', ''among'', ''update'', ''add'', ''remove'', ''delete'',
      ''create'', ''modify'', ''change'', ''fix'', ''implement'', ''refactor'']"

text \<open>
  \<^verbatim>\<open>while ((match = pattern.exec(instruction)) !== null) identifiers.push(match[0])\<close>
  for each pattern, then the words longer than two, then duplicates and common words go.
\<close>

definition match0_all :: "rx \<Rightarrow> string \<Rightarrow> string list option" where
  "match0_all re s = map_option (map m_text) (exec_all re s)"

definition extractIdentifiers :: "string \<Rightarrow> string list option" where
  "extractIdentifiers instruction =
     (case collect_all (map match0_all identifier_patterns) instruction of
        None \<Rightarrow> None
      | Some found \<Rightarrow>
          let words = split_re delimiter_re instruction;
              identifiers = found @ filter (\<lambda>word. length word > 2) words
          in Some (filter (\<lambda>id. length id > 2 \<and> toLowerCase id \<notin> set commonWords)
                          (unique identifiers)))"

subsection \<open>The passes\<close>

definition file_base_name :: "FileIndex \<Rightarrow> string" where
  "file_base_name file = path_basename_ext (fi_path file) (path_extname (fi_path file))"

definition findExactFileMatches :: "string \<Rightarrow> ProjectIndex \<Rightarrow> FileMatch list" where
  "findExactFileMatches identifier index =
     concat (map (\<lambda>file.
        let fileName = file_base_name file in
        if toLowerCase fileName = toLowerCase identifier then
          [\<lparr>fm_file = file, fm_score = 1, fm_matchType = Exact,
            fm_matchReason = ''Exact file name match: '' @ fileName\<rparr>]
        else if js_includes (toLowerCase fileName) (toLowerCase identifier) then
          [\<lparr>fm_file = file,
            fm_score = fmul (fdiv (len identifier) (len fileName)) (dbl (8 / 10)),
            fm_matchType = Exact,
            fm_matchReason = ''File name contains: '' @ identifier\<rparr>]
        else []) (obj_values index))"

text \<open>
  The class, function and export passes have one shape: a symbol equal to the identifier
  scores \<open>exact\<close>, a symbol that contains it scores its share of the symbol times
  \<open>weight\<close>.
\<close>

definition symbol_matches ::
  "(FileIndex \<Rightarrow> string list) \<Rightarrow> match_type \<Rightarrow> rat \<Rightarrow> rat \<Rightarrow> string \<Rightarrow> string \<Rightarrow>
   string \<Rightarrow> ProjectIndex \<Rightarrow> FileMatch list" where
  "symbol_matches symbols ty exact weight exactReason containsReason identifier index =
     concat (map (\<lambda>file.
       concat (map (\<lambda>name.
         if toLowerCase name = toLowerCase identifier then
           [\<lparr>fm_file = file, fm_score = exact, fm_matchType = ty,
             fm_matchReason = exactReason @ name\<rparr>]
         else if js_includes (toLowerCase name) (toLowerCase identifier) then
           [\<lparr>fm_file = file,
             fm_score = fmul (fdiv (len identifier) (len name)) weight,
             fm_matchType = ty,
             fm_matchReason = containsReason @ identifier @ '' in '' @ name\<rparr>]
         else []) (symbols file))) (obj_values index))"

definition findClassMatches :: "string \<Rightarrow> ProjectIndex \<Rightarrow> FileMatch list" where
  "findClassMatches =
     symbol_matches fi_classes ClassMatch (dbl (9 / 10)) (dbl (7 / 10)) ''Exact class match: '' ''Class contains: ''"

definition findFunctionMatches :: "string \<Rightarrow> ProjectIndex \<Rightarrow> FileMatch list" where
  "findFunctionMatches =
     symbol_matches fi_functions FunctionMatch (dbl (8 / 10)) (dbl (6 / 10)) ''Exact function match: ''
       ''Function contains: ''"

definition findExportMatches :: "string \<Rightarrow> ProjectIndex \<Rightarrow> FileMatch list" where
  "findExportMatches =
     symbol_matches fi_exports ExportMatch (dbl (85 / 100)) (dbl (65 / 100)) ''Exact export match: ''
       ''Export contains: ''"

text \<open>
  \<open>calculateFuzzyScore\<close>: the share of the haystack when it contains the needle,
  otherwise the number of needle characters found in order, over the needle's length,
  times 0.8.
\<close>

fun subsequence_count :: "string \<Rightarrow> string \<Rightarrow> nat" where
  "subsequence_count [] needle = 0"
| "subsequence_count (h # hs) [] = 0"
| "subsequence_count (h # hs) (n # ns) =
     (if h = n then Suc (subsequence_count hs ns) else subsequence_count hs (n # ns))"

definition calculateFuzzyScore :: "string \<Rightarrow> string \<Rightarrow> rat" where
  "calculateFuzzyScore needle haystack =
     (if needle = [] \<or> haystack = [] then 0
      else
        let needleLower = toLowerCase needle; haystackLower = toLowerCase haystack in
        if js_includes haystackLower needleLower
        then fdiv (len needleLower) (len haystackLower)
        else fmul (fdiv (of_nat (subsequence_count haystackLower needleLower)) (len needleLower))
                  (dbl (8 / 10)))"

definition findFuzzyMatches :: "string \<Rightarrow> ProjectIndex \<Rightarrow> FileMatch list" where
  "findFuzzyMatches identifier index =
     concat (map (\<lambda>file.
       let pathScore = calculateFuzzyScore identifier (fi_relativePath file);
           summaryScore = calculateFuzzyScore identifier (fi_summary file)
       in (if pathScore > dbl (3 / 10)
           then [\<lparr>fm_file = file, fm_score = fmul pathScore (dbl (5 / 10)), fm_matchType = Fuzzy,
                  fm_matchReason = ''Fuzzy path match: '' @ identifier @ '' ~ '' @ fi_relativePath file\<rparr>]
           else [])
        @ (if summaryScore > dbl (3 / 10)
           then [\<lparr>fm_file = file, fm_score = fmul summaryScore (dbl (4 / 10)), fm_matchType = Fuzzy,
                  fm_matchReason = ''Fuzzy summary match: '' @ identifier\<rparr>]
           else [])) (obj_values index))"

text \<open>
  \<open>deduplicateMatches\<close> keeps one match per file path, at the place of the first, and
  replaces it by a later match of the same path with a higher score.
\<close>

fun replace_if_higher :: "FileMatch \<Rightarrow> FileMatch list \<Rightarrow> FileMatch list" where
  "replace_if_higher m [] = []"
| "replace_if_higher m (u # us) =
     (if fi_path (fm_file u) = fi_path (fm_file m)
      then (if fm_score m > fm_score u then m # us else u # us)
      else u # replace_if_higher m us)"

definition deduplicateMatches :: "FileMatch list \<Rightarrow> FileMatch list" where
  "deduplicateMatches matches =
     foldl (\<lambda>uniqueMatches m.
              if fi_path (fm_file m) \<notin> set (map (\<lambda>u. fi_path (fm_file u)) uniqueMatches)
              then uniqueMatches @ [m]
              else replace_if_higher m uniqueMatches) [] matches"

text \<open>
  \<^verbatim>\<open>.sort((a, b) => b.score - a.score)\<close>: a stable sort, highest score first.
\<close>

fun insert_desc :: "FileMatch \<Rightarrow> FileMatch list \<Rightarrow> FileMatch list" where
  "insert_desc m [] = [m]"
| "insert_desc m (u # us) =
     (if fm_score u \<ge> fm_score m then u # insert_desc m us else m # u # us)"

definition sort_desc :: "FileMatch list \<Rightarrow> FileMatch list" where
  "sort_desc ms = foldl (\<lambda>acc m. insert_desc m acc) [] ms"

subsection \<open>resolveFiles\<close>

text \<open>
  The calls of \<open>this.log\<close> in \<open>resolveFiles\<close>, one constructor per call site with what it
  prints.
\<close>

datatype resolver_log =
    LogResolving string
  | LogNotIndexed
  | LogIdentifiers "string list"
  | LogExactFound nat
  | LogNoExact
  | LogFound nat
  | LogMatch FileMatch

text \<open>
  The result: the matches, the log lines written, and the indexer (which the call builds
  first when nothing is indexed). \<open>None\<close>: the call does not return.
\<close>

definition resolveFiles ::
  "host \<Rightarrow> string \<Rightarrow> PartialResolverOptions \<Rightarrow> indexer \<Rightarrow>
   (FileMatch list \<times> resolver_log list \<times> indexer) option" where
  "resolveFiles h instruction options st =
     (let finalOptions = resolver_options options;
          log0 = [LogResolving instruction]
      in case (if \<not> isIndexed st
               then map_option (\<lambda>(idx, st'). (log0 @ [LogNotIndexed], st')) (buildIndex h no_options st)
               else Some (log0, st)) of
           None \<Rightarrow> None
         | Some (log1, st') \<Rightarrow>
             (case extractIdentifiers instruction of
                None \<Rightarrow> None
              | Some identifiers \<Rightarrow>
                  let index = getIndex st';
                      log2 = log1 @ [LogIdentifiers identifiers];
                      exactMatches = concat (map (\<lambda>identifier. findExactFileMatches identifier index) identifiers)
                  in if length exactMatches > 0 then
                       let bestExactMatch = take 1 (sort_desc exactMatches)
                       in Some (bestExactMatch,
                                log2 @ [LogExactFound (length bestExactMatch)] @ map LogMatch bestExactMatch,
                                st')
                     else
                       let matches =
                             concat (map (\<lambda>identifier. findClassMatches identifier index) identifiers)
                             @ concat (map (\<lambda>identifier. findFunctionMatches identifier index) identifiers)
                             @ concat (map (\<lambda>identifier. findExportMatches identifier index) identifiers)
                             @ (if enableFuzzyMatching finalOptions
                                then concat (map (\<lambda>identifier. findFuzzyMatches identifier index) identifiers)
                                else []);
                           uniqueMatches = deduplicateMatches matches;
                           sortedMatches =
                             take (maxResults finalOptions)
                               (sort_desc (filter (\<lambda>m. fm_score m \<ge> minScore finalOptions) uniqueMatches))
                       in Some (sortedMatches,
                                log2 @ [LogNoExact, LogFound (length sortedMatches)] @ map LogMatch sortedMatches,
                                st')))"

text \<open>All matches of the exact pass, as \<open>resolveFiles\<close> collects them.\<close>

definition exact_matches :: "string list \<Rightarrow> ProjectIndex \<Rightarrow> FileMatch list" where
  "exact_matches identifiers index =
     concat (map (\<lambda>identifier. findExactFileMatches identifier index) identifiers)"

subsection \<open>What the specification calls an exact match\<close>

text \<open>
  In the words of the specification: an identifier hits a file when it equals, ignoring
  case, the file's base name with the extension removed, or is contained in it. The score
  of a hit is 1 for equality and otherwise the identifier's share of the base name times
  0.8.
\<close>

definition name_hit :: "string \<Rightarrow> FileIndex \<Rightarrow> bool" where
  "name_hit identifier file =
     (toLowerCase (file_base_name file) = toLowerCase identifier \<or>
      js_includes (toLowerCase (file_base_name file)) (toLowerCase identifier))"

definition hit_score :: "string \<Rightarrow> FileIndex \<Rightarrow> rat" where
  "hit_score identifier file =
     (if toLowerCase (file_base_name file) = toLowerCase identifier then 1
      else fmul (fdiv (len identifier) (len (file_base_name file))) (dbl (8 / 10)))"

section \<open>SmartAgent\<close>

subsection \<open>parseFileChanges\<close>

datatype change_type = Replace | Insert | FunctionUpdate

record FileChange =
  fc_fileName :: string
  fc_newContent :: string
  fc_startLine :: "nat option"
  fc_endLine :: "nat option"
  fc_changeType :: change_type

definition rxi :: "regex \<Rightarrow> rx" where
  "rxi r = \<lparr>rx_re = r, rx_i = True, rx_m = False\<rparr>"

text \<open>
  \<^verbatim>\<open>/###?\s*File:?\s*([^\n]+?)\s*(?:\(lines?\s*(\d+)(?:\s*-\s*(\d+))?\))?\s*\n```[\w]*\n([\s\S]*?)\n```/gi\<close>
\<close>

definition fileHeaderWithLinesPattern :: rx where
  "fileHeaderWithLinesPattern =
     rxi (Seqs [Lit ''##'', Opt (Lit ''#''), Star rx_s, Lit ''File'', Opt (Lit '':''), Star rx_s,
                Grp 1 (LPlus rx_not_nl), Star rx_s,
                Opt (Seqs [Lit ''(line'', Opt (Lit ''s''), Star rx_s, Grp 2 (Plus rx_d),
                           Opt (Seqs [Star rx_s, Lit ''-'', Star rx_s, Grp 3 (Plus rx_d)]),
                           Lit '')'']),
                Star rx_s, Lit ''\<newline>```'', Star rx_w, Lit ''\<newline>'',
                Grp 4 (LStar rx_any), Lit ''\<newline>```''])"

text \<open>\<^verbatim>\<open>/[`*]/g\<close> and \<^verbatim>\<open>/^\s*\d+:\s*/gm\<close>\<close>

definition tick_star_re :: rx where
  "tick_star_re = rxg (Cls [CChar (CHR 0x60), CChar CHR ''*''])"

definition line_number_re :: rx where
  "line_number_re =
     \<lparr>rx_re = Seqs [Bol, Star rx_s, Plus rx_d, Lit '':'', Star rx_s], rx_i = False, rx_m = True\<rparr>"

text \<open>\<^verbatim>\<open>/```[\w]*\n([\s\S]*?)\*\//gi\<close> and \<^verbatim>\<open>/\*\s*(\w+)\s*-/\<close>\<close>

definition functionDocPattern :: rx where
  "functionDocPattern =
     rxi (Seqs [Lit ''```'', Star rx_w, Lit ''\<newline>'', Grp 1 (LStar rx_any), Lit ''*/''])"

definition doc_name_re :: rx where
  "doc_name_re = rxg (Seqs [Lit ''*'', Star rx_s, Grp 1 (Plus rx_w), Star rx_s, Lit ''-''])"

text \<open>\<^verbatim>\<open>/(\/\*\*[\s\S]*?\*\/)\s*\n\s*(const|let|var|function)\s+(\w+)/gi\<close>\<close>

definition functionDocWithCodePattern :: rx where
  "functionDocWithCodePattern =
     rxi (Seqs [Grp 1 (Seqs [Lit ''/**'', LStar rx_any, Lit ''*/'']), Star rx_s, Lit ''\<newline>'',
                Star rx_s,
                Grp 2 (Alts [Lit ''const'', Lit ''let'', Lit ''var'', Lit ''function'']),
                Plus rx_s, Grp 3 (Plus rx_w)])"

text \<open>\<^verbatim>\<open>/```[\w]*\s*\/\/\s*([^\n]+)\n([\s\S]*?)```/gi\<close> and \<^verbatim>\<open>/```[\w]*\n([\s\S]*?)```/gi\<close>\<close>

definition commentedBlockPattern :: rx where
  "commentedBlockPattern =
     rxi (Seqs [Lit ''```'', Star rx_w, Star rx_s, Lit ''//'', Star rx_s, Grp 1 (Plus rx_not_nl),
                Lit ''\<newline>'', Grp 2 (LStar rx_any), Lit ''```''])"

definition codeBlockPattern :: rx where
  "codeBlockPattern =
     rxi (Seqs [Lit ''```'', Star rx_w, Lit ''\<newline>'', Grp 1 (LStar rx_any), Lit ''```''])"

text \<open>\<^verbatim>\<open>match[n] || ''\<close> and \<^verbatim>\<open>match[n]?.trim() || ''\<close>\<close>

definition cap_or_empty :: "rmatch \<Rightarrow> nat \<Rightarrow> string" where
  "cap_or_empty m n = (case m_caps m n of None \<Rightarrow> [] | Some g \<Rightarrow> g)"

definition cap_int :: "rmatch \<Rightarrow> nat \<Rightarrow> nat option" where
  "cap_int m n =
     (case m_caps m n of
        None \<Rightarrow> None
      | Some g \<Rightarrow> if g = [] then None else Some (parseInt_digits g))"

text \<open>The body of the first loop, for one match.\<close>

definition header_change :: "rmatch \<Rightarrow> FileChange list" where
  "header_change m =
     (let fileName = trim (cap_or_empty m 1);
          startLine = cap_int m 2;
          endLine = cap_int m 3;
          content = cap_or_empty m 4
      in if fileName \<noteq> [] \<and> content \<noteq> [] then
           let cleanFileName = trim (replace_all tick_star_re fileName []);
               cleanContent = trim content
           in if js_includes content ''/**'' \<and> js_includes content ''*/'' then
                [\<lparr>fc_fileName = cleanFileName,
                  fc_newContent = replace_all line_number_re cleanContent [],
                  fc_startLine = None, fc_endLine = None, fc_changeType = FunctionUpdate\<rparr>]
              else
                (case startLine of
                   Some sl \<Rightarrow>
                     let contentLines = length (js_split content ''\<newline>'')
                     in [\<lparr>fc_fileName = cleanFileName, fc_newContent = cleanContent,
                          fc_startLine = Some sl,
                          fc_endLine = Some (case endLine of
                                               None \<Rightarrow> sl + contentLines - 1
                                             | Some el \<Rightarrow> if el \<noteq> 0 then el else sl + contentLines - 1),
                          fc_changeType = Replace\<rparr>]
                 | None \<Rightarrow>
                     [\<lparr>fc_fileName = cleanFileName, fc_newContent = cleanContent,
                       fc_startLine = None, fc_endLine = endLine, fc_changeType = Replace\<rparr>])
         else [])"

definition doc_block_change :: "rmatch \<Rightarrow> FileChange list" where
  "doc_block_change m =
     (let content = cap_or_empty m 1
      in if trim content \<noteq> [] \<and> js_includes content ''/**'' then
           let cleanedContent = replace_all line_number_re (trim content) []
           in (case exec_from doc_name_re cleanedContent 0 of
                 Some nm \<Rightarrow>
                   [\<lparr>fc_fileName = cap_or_empty nm 1, fc_newContent = cleanedContent,
                     fc_startLine = None, fc_endLine = None, fc_changeType = FunctionUpdate\<rparr>]
               | None \<Rightarrow>
                   [\<lparr>fc_fileName = ''function_update'', fc_newContent = cleanedContent,
                     fc_startLine = None, fc_endLine = None, fc_changeType = FunctionUpdate\<rparr>])
         else [])"

definition doc_with_code_change :: "rmatch \<Rightarrow> FileChange list" where
  "doc_with_code_change m =
     (let docContent = cap_or_empty m 1;
          functionName = cap_or_empty m 3
      in if trim docContent \<noteq> [] \<and> functionName \<noteq> [] then
           [\<lparr>fc_fileName = functionName,
             fc_newContent = replace_all line_number_re (trim docContent) [],
             fc_startLine = None, fc_endLine = None, fc_changeType = FunctionUpdate\<rparr>]
         else [])"

definition commented_block_change :: "rmatch \<Rightarrow> FileChange list" where
  "commented_block_change m =
     (let fileName = trim (cap_or_empty m 1);
          content = cap_or_empty m 2
      in if fileName \<noteq> [] \<and> content \<noteq> [] then
           [\<lparr>fc_fileName = fileName, fc_newContent = trim content,
             fc_startLine = None, fc_endLine = None, fc_changeType = Replace\<rparr>]
         else [])"

text \<open>The fallback numbers the blocks it keeps: \<^verbatim>\<open>modified_file_${blockIndex + 1}\<close>.\<close>

fun plain_block_changes :: "rmatch list \<Rightarrow> nat \<Rightarrow> FileChange list" where
  "plain_block_changes [] blockIndex = []"
| "plain_block_changes (m # ms) blockIndex =
     (let content = cap_or_empty m 1
      in if trim content \<noteq> [] then
           \<lparr>fc_fileName = ''modified_file_'' @ show_nat (blockIndex + 1),
            fc_newContent = trim content,
            fc_startLine = None, fc_endLine = None, fc_changeType = Replace\<rparr>
           # plain_block_changes ms (blockIndex + 1)
         else plain_block_changes ms blockIndex)"

text \<open>
  Each later pattern runs only \<^verbatim>\<open>if (changes.length === 0)\<close>. \<open>None\<close>: a loop that does
  not end.
\<close>

definition parseFileChanges :: "string \<Rightarrow> FileChange list option" where
  "parseFileChanges aiResponse =
     do {
       ms1 \<leftarrow> exec_all fileHeaderWithLinesPattern aiResponse;
       let changes1 = concat (map header_change ms1);
       changes2 \<leftarrow> (if length changes1 = 0
                     then map_option (\<lambda>ms. concat (map doc_block_change ms))
                                     (exec_all functionDocPattern aiResponse)
                     else Some changes1);
       changes3 \<leftarrow> (if length changes2 = 0
                     then map_option (\<lambda>ms. concat (map doc_with_code_change ms))
                                     (exec_all functionDocWithCodePattern aiResponse)
                     else Some changes2);
       changes4 \<leftarrow> (if length changes3 = 0
                     then map_option (\<lambda>ms. concat (map commented_block_change ms))
                                     (exec_all commentedBlockPattern aiResponse)
                     else Some changes3);
       (if length changes4 = 0
        then map_option (\<lambda>ms. plain_block_changes ms 0) (exec_all codeBlockPattern aiResponse)
        else Some changes4)
     }"


section \<open>Example data\<close>

text \<open>A workspace with ten TypeScript files, one of which cannot be read.\<close>

definition demo_files :: "string list" where
  "demo_files = [''/w/a.ts'', ''/w/b.ts'', ''/w/c.ts'', ''/w/d.ts'', ''/w/e.ts'',
                 ''/w/f.ts'', ''/w/g.ts'', ''/w/h.ts'', ''/w/i.ts'', ''/w/j.ts'']"

definition demo_host :: host where
  "demo_host =
     \<lparr>h_activeFolder = None,
      h_firstFolder = Some ''/w'',
      h_glob = (\<lambda>pattern cwd ignore. if pattern = ''**/*.ts'' then Inr demo_files else Inr []),
      h_stat = (\<lambda>p. if p \<in> set demo_files then Some (20, 1) else None),
      h_read = (\<lambda>p. if p = ''/w/c.ts'' then None
                     else if p \<in> set demo_files then Some ''export class A {}'' else None),
      h_now = 7\<rparr>"

text \<open>
  A workspace of ten files, one of them named \<^verbatim>\<open>__proto__\<close> and one unreadable, indexed
  with the include pattern \<^verbatim>\<open>**/*\<close>.
\<close>

definition demo_files_proto :: "string list" where
  "demo_files_proto = [''/w/__proto__'', ''/w/a.ts'', ''/w/b.ts'', ''/w/c.ts'', ''/w/d.ts'',
                       ''/w/e.ts'', ''/w/f.ts'', ''/w/g.ts'', ''/w/h.ts'', ''/w/i.ts'']"

definition demo_host_proto :: host where
  "demo_host_proto =
     \<lparr>h_activeFolder = None,
      h_firstFolder = Some ''/w'',
      h_glob = (\<lambda>pattern cwd ignore. if pattern = ''**/*'' then Inr demo_files_proto else Inr []),
      h_stat = (\<lambda>p. if p \<in> set demo_files_proto then Some (20, 1) else None),
      h_read = (\<lambda>p. if p = ''/w/c.ts'' then None
                     else if p \<in> set demo_files_proto then Some ''export class A {}'' else None),
      h_now = 7\<rparr>"

definition demo_all_files :: PartialIndexingOptions where
  "demo_all_files = no_options\<lparr>p_includePatterns := Some [''**/*'']\<rparr>"

text \<open>An indexer that holds the index of an earlier build, and is idle.\<close>

definition demo_old_record :: FileIndex where
  "demo_old_record =
     \<lparr>fi_path = ''/w/old.ts'', fi_relativePath = ''old.ts'', fi_exports = [], fi_imports = [],
      fi_classes = [], fi_functions = [], fi_interfaces = [],
      fi_summary = ''typescript file with 1 lines'', fi_language = ''typescript'',
      fi_lastModified = 0, fi_lineCount = 1\<rparr>"

definition demo_prev :: indexer_sys where
  "demo_prev =
     \<lparr>ix = \<lparr>projectIndex = [(''old.ts'', demo_old_record)], isIndexing = False,
             lastIndexTime = 1, workspaceRoot = ''/w''\<rparr>,
      old = [],
      task = None\<rparr>"

text \<open>The record of a file of the example workspace, and the states of a scan of it.\<close>

definition demo_record :: "string \<Rightarrow> FileIndex" where
  "demo_record name =
     \<lparr>fi_path = ''/w/'' @ name, fi_relativePath = name, fi_exports = [''A''], fi_imports = [],
      fi_classes = [''A''], fi_functions = [], fi_interfaces = [],
      fi_summary = ''typescript file with 1 lines. 1 class: A'', fi_language = ''typescript'',
      fi_lastModified = 1, fi_lineCount = 1\<rparr>"

definition demo_scan :: "ProjectIndex \<Rightarrow> build_task \<Rightarrow> indexer_sys" where
  "demo_scan index t =
     \<lparr>ix = \<lparr>projectIndex = index, isIndexing = True, lastIndexTime = 1, workspaceRoot = ''/w''\<rparr>,
      old = [[(''old.ts'', demo_old_record)]],
      task = Some t\<rparr>"

text \<open>An index of two files, \<^verbatim>\<open>main.ts\<close> and \<^verbatim>\<open>mainHelper.ts\<close>; the second declares a
  function and a class named \<^verbatim>\<open>main\<close>.\<close>

definition demo_main :: FileIndex where
  "demo_main =
     \<lparr>fi_path = ''/w/src/main.ts'', fi_relativePath = ''src/main.ts'', fi_exports = [],
      fi_imports = [], fi_classes = [], fi_functions = [], fi_interfaces = [],
      fi_summary = ''typescript file with 1 lines'', fi_language = ''typescript'',
      fi_lastModified = 0, fi_lineCount = 1\<rparr>"

definition demo_helper :: FileIndex where
  "demo_helper =
     \<lparr>fi_path = ''/w/src/mainHelper.ts'', fi_relativePath = ''src/mainHelper.ts'',
      fi_exports = [''main''], fi_imports = [], fi_classes = [''Main''], fi_functions = [''main''],
      fi_interfaces = [],
      fi_summary = ''typescript file with 9 lines. 1 class: Main, 1 function: main'',
      fi_language = ''typescript'', fi_lastModified = 0, fi_lineCount = 9\<rparr>"

definition demo_indexed :: indexer where
  "demo_indexed =
     \<lparr>projectIndex = [(''mainHelper.ts'', demo_helper), (''main.ts'', demo_main)], isIndexing = False,
      lastIndexTime = 1, workspaceRoot = ''/w''\<rparr>"

definition no_resolver_options :: PartialResolverOptions where
  "no_resolver_options =
     \<lparr>p_maxResults = None, p_minScore = None, p_enableFuzzyMatching = None,
      p_prioritizeExactMatches = None\<rparr>"


section \<open>Proofs: strings and the matcher\<close>

lemma search_NoneI:
  "(\<And>q t. suffix t s \<Longrightarrow> match_at re q t = None) \<Longrightarrow> search re p s = None"
proof (induction s arbitrary: p)
  case Nil
  then show ?case by simp
next
  case (Cons c cs)
  have "match_at re p (c # cs) = None" by (rule Cons.prems) simp
  moreover have "search re (c # p) cs = None"
    by (rule Cons.IH) (rule Cons.prems, simp add: suffix_Cons)
  ultimately show ?case by simp
qed

lemma lit_match_None:
  "\<not> prefix w (suf st) \<Longrightarrow> lit_match False w st = None"
proof (induction w arbitrary: st)
  case Nil
  then show ?case by simp
next
  case (Cons c cs)
  show ?case
  proof (cases "suf st")
    case Nil
    then show ?thesis by simp
  next
    case (Cons x xs)
    then show ?thesis using Cons.prems Cons.IH[of "st\<lparr>pre := x # pre st, suf := xs\<rparr>"]
      by (simp add: char_eq_def)
  qed
qed

lemma js_includes_iff: "js_includes s w \<longleftrightarrow> (\<exists>t. suffix t s \<and> prefix w t)"
proof (induction s)
  case Nil
  then show ?case by auto
next
  case (Cons c cs)
  then show ?case by (auto simp: suffix_Cons)
qed

text \<open>
  A successful match hands to its continuation a state that lies at least \<open>min_len\<close>
  code units further in the same input. Hence the bounds on a match, and the end of every
  \<^verbatim>\<open>exec\<close> loop over an expression that cannot match the empty string.
\<close>

lemma extends_refl: "extends st st 0"
  by (simp add: extends_def)

lemma extends_trans:
  "extends st st1 n \<Longrightarrow> extends st1 st2 m \<Longrightarrow> extends st st2 (n + m)"
  unfolding extends_def
proof -
  assume "\<exists>w. n \<le> length w \<and> pre st1 = rev w @ pre st \<and> suf st = w @ suf st1"
    and "\<exists>w. m \<le> length w \<and> pre st2 = rev w @ pre st1 \<and> suf st1 = w @ suf st2"
  then obtain w v where "n \<le> length w" "pre st1 = rev w @ pre st" "suf st = w @ suf st1"
    "m \<le> length v" "pre st2 = rev v @ pre st1" "suf st1 = v @ suf st2" by blast
  then have "n + m \<le> length (w @ v) \<and> pre st2 = rev (w @ v) @ pre st \<and> suf st = (w @ v) @ suf st2"
    by simp
  then show "\<exists>w. n + m \<le> length w \<and> pre st2 = rev w @ pre st \<and> suf st = w @ suf st2" by blast
qed

lemma extends_weaken: "extends st st' n \<Longrightarrow> m \<le> n \<Longrightarrow> extends st st' m"
  by (auto simp: extends_def)

lemma extends_step:
  "suf st = c # cs \<Longrightarrow> extends st (st\<lparr>pre := c # pre st, suf := cs\<rparr>) 1"
  by (auto simp: extends_def intro!: exI[of _ "[c]"])

lemma extends_caps: "extends st st' n \<Longrightarrow> extends st (st'\<lparr>caps := f\<rparr>) n"
  by (simp add: extends_def)

lemma lit_match_extends:
  "lit_match ic s st = Some st' \<Longrightarrow> extends st st' (length s)"
proof (induction s arbitrary: st)
  case Nil
  then show ?case by (simp add: extends_refl)
next
  case (Cons c cs)
  from Cons.prems obtain x xs where sf: "suf st = x # xs"
    and rest: "lit_match ic cs (st\<lparr>pre := x # pre st, suf := xs\<rparr>) = Some st'"
    by (auto split: list.splits if_splits)
  have "extends st (st\<lparr>pre := x # pre st, suf := xs\<rparr>) 1" using sf by (rule extends_step)
  moreover have "extends (st\<lparr>pre := x # pre st, suf := xs\<rparr>) st' (length cs)"
    using rest by (rule Cons.IH)
  ultimately have "extends st st' (1 + length cs)" by (rule extends_trans)
  then show ?case by simp
qed

lemma star_greedy_extends:
  assumes f: "\<And>k st x. f k st = Some x \<Longrightarrow> \<exists>st'. extends st st' 0 \<and> k st' = Some x"
  shows "star_greedy f k n st = Some x \<Longrightarrow> \<exists>st'. extends st st' 0 \<and> k st' = Some x"
proof (induction n arbitrary: st)
  case 0
  then show ?case using extends_refl by auto
next
  case (Suc n)
  let ?k = "\<lambda>st'. if length (suf st') < length (suf st) then star_greedy f k n st' else None"
  show ?case
  proof (cases "f ?k st")
    case None
    then have "k st = Some x" using Suc.prems by simp
    then show ?thesis using extends_refl by auto
  next
    case (Some y)
    then have "y = x" using Suc.prems by simp
    then obtain st1 where e1: "extends st st1 0" and k1: "?k st1 = Some x" using f[OF Some] by auto
    then have "star_greedy f k n st1 = Some x" by (auto split: if_splits)
    then obtain st2 where e2: "extends st1 st2 0" and k2: "k st2 = Some x" using Suc.IH by blast
    have "extends st st2 (0 + 0)" using e1 e2 by (rule extends_trans)
    then show ?thesis using k2 by auto
  qed
qed

lemma star_lazy_extends:
  assumes f: "\<And>k st x. f k st = Some x \<Longrightarrow> \<exists>st'. extends st st' 0 \<and> k st' = Some x"
  shows "star_lazy f k n st = Some x \<Longrightarrow> \<exists>st'. extends st st' 0 \<and> k st' = Some x"
proof (induction n arbitrary: st)
  case 0
  then show ?case using extends_refl by auto
next
  case (Suc n)
  let ?k = "\<lambda>st'. if length (suf st') < length (suf st) then star_lazy f k n st' else None"
  show ?case
  proof (cases "k st")
    case (Some y)
    then have "k st = Some x" using Suc.prems by simp
    then show ?thesis using extends_refl by auto
  next
    case None
    then have "f ?k st = Some x" using Suc.prems by simp
    then obtain st1 where e1: "extends st st1 0" and k1: "?k st1 = Some x" using f by blast
    then have "star_lazy f k n st1 = Some x" by (auto split: if_splits)
    then obtain st2 where e2: "extends st1 st2 0" and k2: "k st2 = Some x" using Suc.IH by blast
    have "extends st st2 (0 + 0)" using e1 e2 by (rule extends_trans)
    then show ?thesis using k2 by auto
  qed
qed

lemma rm_extends:
  fixes k :: "mstate \<Rightarrow> 'r option"
  shows "rm ic ml r k st = Some x \<Longrightarrow> \<exists>st'. extends st st' (min_len r) \<and> k st' = Some x"
proof (induction r arbitrary: k st x)
  case (Lit s)
  from Lit.prems obtain st1 where l: "lit_match ic s st = Some st1" and kk: "k st1 = Some x"
    by (auto split: option.splits)
  show ?case using lit_match_extends[OF l] kk by auto
next
  case (Cls items)
  from Cls.prems obtain c cs where sf: "suf st = c # cs"
    and kk: "k (st\<lparr>pre := c # pre st, suf := cs\<rparr>) = Some x"
    by (auto split: list.splits if_splits)
  show ?case using extends_step[OF sf] kk by auto
next
  case (NCls items)
  from NCls.prems obtain c cs where sf: "suf st = c # cs"
    and kk: "k (st\<lparr>pre := c # pre st, suf := cs\<rparr>) = Some x"
    by (auto split: list.splits if_splits)
  show ?case using extends_step[OF sf] kk by auto
next
  case (Seq a b)
  from Seq.prems have "rm ic ml a (rm ic ml b k) st = Some x" by simp
  then obtain st1 where e1: "extends st st1 (min_len a)" and "rm ic ml b k st1 = Some x"
    using Seq.IH(1) by blast
  then obtain st2 where e2: "extends st1 st2 (min_len b)" and k2: "k st2 = Some x"
    using Seq.IH(2) by blast
  have "extends st st2 (min_len a + min_len b)" using e1 e2 by (rule extends_trans)
  then show ?case using k2 by auto
next
  case (Alt a b)
  show ?case
  proof (cases "rm ic ml a k st")
    case None
    then have "rm ic ml b k st = Some x" using Alt.prems by simp
    then obtain st' where "extends st st' (min_len b)" "k st' = Some x" using Alt.IH(2) by blast
    moreover have "extends st st' (min (min_len a) (min_len b))"
      using \<open>extends st st' (min_len b)\<close> by (rule extends_weaken) simp
    ultimately show ?thesis by auto
  next
    case (Some y)
    then have "rm ic ml a k st = Some x" using Alt.prems by simp
    then obtain st' where "extends st st' (min_len a)" "k st' = Some x" using Alt.IH(1) by blast
    moreover have "extends st st' (min (min_len a) (min_len b))"
      using \<open>extends st st' (min_len a)\<close> by (rule extends_weaken) simp
    ultimately show ?thesis by auto
  qed
next
  case (Star r)
  have f: "\<exists>st'. extends st st' 0 \<and> k st' = Some x" if h: "rm ic ml r k st = Some x"
    for k :: "mstate \<Rightarrow> 'r option" and st x
  proof -
    from Star.IH[OF h] obtain st' where e: "extends st st' (min_len r)" and kk: "k st' = Some x" by blast
    have "extends st st' 0" using e by (rule extends_weaken) simp
    then show ?thesis using kk by blast
  qed
  from Star.prems show ?case using star_greedy_extends[of "rm ic ml r", OF f] by simp
next
  case (LStar r)
  have f: "\<exists>st'. extends st st' 0 \<and> k st' = Some x" if h: "rm ic ml r k st = Some x"
    for k :: "mstate \<Rightarrow> 'r option" and st x
  proof -
    from LStar.IH[OF h] obtain st' where e: "extends st st' (min_len r)" and kk: "k st' = Some x" by blast
    have "extends st st' 0" using e by (rule extends_weaken) simp
    then show ?thesis using kk by blast
  qed
  from LStar.prems show ?case using star_lazy_extends[of "rm ic ml r", OF f] by simp
next
  case (Opt r)
  let ?k = "\<lambda>st'. if length (suf st') < length (suf st) then k st' else None"
  show ?case
  proof (cases "rm ic ml r ?k st")
    case None
    then have "k st = Some x" using Opt.prems by simp
    then show ?thesis using extends_refl by auto
  next
    case (Some y)
    then have "rm ic ml r ?k st = Some x" using Opt.prems by simp
    then obtain st' where e: "extends st st' (min_len r)" and kk: "?k st' = Some x" using Opt.IH by blast
    have "extends st st' 0" using e by (rule extends_weaken) simp
    moreover have "k st' = Some x" using kk by (simp split: if_splits)
    ultimately show ?thesis by auto
  qed
next
  case (Grp n r)
  let ?k = "\<lambda>st'. k (st'\<lparr>caps := (caps st')(n \<mapsto> captured st st')\<rparr>)"
  from Grp.prems have "rm ic ml r ?k st = Some x" by simp
  then obtain st' where e: "extends st st' (min_len r)" and kk: "?k st' = Some x" using Grp.IH by blast
  have "extends st (st'\<lparr>caps := (caps st')(n \<mapsto> captured st st')\<rparr>) (min_len r)"
    using e by (rule extends_caps)
  then show ?case using kk by auto
next
  case Bol
  then show ?case using extends_refl by (auto split: if_splits)
next
  case Eol
  then show ?case using extends_refl by (auto split: if_splits)
next
  case WordB
  then show ?case using extends_refl by (auto split: if_splits)
qed

lemma match_at_bounds:
  assumes "match_at re p s = Some m"
  shows "m_index m = length p \<and> length p + min_len (rx_re re) \<le> m_end m \<and> m_end m \<le> length p + length s"
proof -
  let ?st = "\<lparr>pre = p, suf = s, caps = Map.empty\<rparr>"
  let ?k = "\<lambda>st'. Some \<lparr>m_index = length p, m_end = length (pre st'),
                       m_text = captured ?st st', m_caps = caps st'\<rparr>"
  from assms have "rm (rx_i re) (rx_m re) (rx_re re) ?k ?st = Some m"
    by (simp add: match_at_def Let_def)
  then have "\<exists>st'. extends ?st st' (min_len (rx_re re)) \<and> ?k st' = Some m"
    by (rule rm_extends)
  then obtain st' where e: "extends ?st st' (min_len (rx_re re))" and k: "?k st' = Some m"
    by (elim exE conjE)
  from e obtain w where w: "min_len (rx_re re) \<le> length w" "pre st' = rev w @ p" "s = w @ suf st'"
    by (auto simp: extends_def)
  from k have "m_index m = length p" "m_end m = length (pre st')" by auto
  then show ?thesis using w by auto
qed

lemma search_bounds:
  "search re p s = Some m \<Longrightarrow>
   length p \<le> m_index m \<and> m_index m + min_len (rx_re re) \<le> m_end m \<and> m_end m \<le> length p + length s"
proof (induction s arbitrary: p)
  case Nil
  then show ?case using match_at_bounds[of re p "[]" m] by simp
next
  case (Cons c cs)
  show ?case
  proof (cases "match_at re p (c # cs)")
    case None
    then have "search re (c # p) cs = Some m" using Cons.prems by simp
    then show ?thesis using Cons.IH[of "c # p"] by simp
  next
    case (Some y)
    then have "match_at re p (c # cs) = Some m" using Cons.prems by simp
    then show ?thesis using match_at_bounds[of re p "c # cs" m] by simp
  qed
qed

lemma exec_from_bounds:
  assumes "exec_from re s i = Some m"
  shows "i \<le> m_index m \<and> m_index m + min_len (rx_re re) \<le> m_end m \<and> m_end m \<le> length s"
proof -
  from assms have i: "i \<le> length s" and "search re (rev (take i s)) (drop i s) = Some m"
    by (auto simp: exec_from_def split: if_splits)
  then show ?thesis using search_bounds[of re "rev (take i s)" "drop i s" m] by simp
qed

lemma exec_loop_returns:
  assumes "0 < min_len (rx_re re)"
  shows "length s < i + n \<Longrightarrow> i \<le> length s \<Longrightarrow> exec_loop re s i n \<noteq> None"
proof (induction n arbitrary: i)
  case 0
  then show ?case by simp
next
  case (Suc n)
  show ?case
  proof (cases "exec_from re s i")
    case None
    then show ?thesis by simp
  next
    case (Some m)
    then have b: "i \<le> m_index m" "m_index m + min_len (rx_re re) \<le> m_end m" "m_end m \<le> length s"
      using exec_from_bounds by blast+
    then have ne: "m_end m \<noteq> m_index m" using assms by simp
    have "length s < m_end m + n" using b assms Suc.prems by simp
    then have "exec_loop re s (m_end m) n \<noteq> None" using b(3) by (rule Suc.IH)
    then show ?thesis using Some ne by (auto split: option.splits)
  qed
qed

lemma exec_all_returns:
  "0 < min_len (rx_re re) \<Longrightarrow> \<exists>ms. exec_all re s = Some ms"
  using exec_loop_returns[of re s 0 "Suc (length s)"] by (auto simp: exec_all_def)

section \<open>Proofs: bracket validation\<close>

lemma bracket_loop_filter: "bracket_loop (filter is_bracket cs) st = bracket_loop cs st"
  by (induction cs arbitrary: st) (auto simp: is_bracket_def brackets_def split: list.splits)

lemma balanced_insert:
  assumes "balanced x" and "(op, cl) \<in> set brackets"
  shows "x = u @ v \<Longrightarrow> balanced (u @ op # cl # v)"
  using assms(1)
proof (induction x arbitrary: u v rule: balanced.induct)
  case bal_empty
  then have "u = []" "v = []" by simp_all
  moreover have "balanced (op # [] @ [cl])" using assms(2) balanced.bal_empty by (rule balanced.bal_wrap[rotated])
  ultimately show ?case by simp
next
  case (bal_wrap w op' cl')
  show ?case
  proof (cases u)
    case Nil
    then have v: "v = op' # w @ [cl']" using bal_wrap.prems by simp
    have "balanced (op # [] @ [cl])" using balanced.bal_empty assms(2) by (rule balanced.bal_wrap)
    moreover have "balanced v" unfolding v using bal_wrap.hyps by (rule balanced.bal_wrap)
    ultimately have "balanced ((op # [] @ [cl]) @ v)" by (rule balanced.bal_concat)
    then show ?thesis using Nil by simp
  next
    case (Cons a u')
    show ?thesis
    proof (cases v rule: rev_cases)
      case Nil
      then have u: "u = op' # w @ [cl']" using bal_wrap.prems by simp
      have "balanced (op # [] @ [cl])" using balanced.bal_empty assms(2) by (rule balanced.bal_wrap)
      moreover have "balanced u" unfolding u using bal_wrap.hyps by (rule balanced.bal_wrap)
      ultimately have "balanced (u @ (op # [] @ [cl]))" by (rule balanced.bal_concat[rotated])
      then show ?thesis using Nil by simp
    next
      case (snoc v' b)
      from bal_wrap.prems Cons snoc have "a = op'" "b = cl'" "w = u' @ v'" by simp_all
      then have "balanced (u' @ op # cl # v')" using bal_wrap.IH by simp
      then have "balanced (op' # (u' @ op # cl # v') @ [cl'])" using bal_wrap.hyps(2) by (rule balanced.bal_wrap)
      then show ?thesis using Cons snoc \<open>a = op'\<close> \<open>b = cl'\<close> by simp
    qed
  qed
next
  case (bal_concat a b)
  from bal_concat.prems have "\<exists>t. (a = u @ t \<and> t @ b = v) \<or> (a @ t = u \<and> b = t @ v)"
    by (auto simp: append_eq_append_conv2)
  then obtain t where "(a = u @ t \<and> t @ b = v) \<or> (a @ t = u \<and> b = t @ v)" ..
  then show ?case
  proof
    assume h: "a = u @ t \<and> t @ b = v"
    then have "balanced (u @ op # cl # t)" using bal_concat.IH(1) by simp
    then have "balanced ((u @ op # cl # t) @ b)" using bal_concat.hyps(2) by (rule balanced.bal_concat)
    then show ?thesis using h by auto
  next
    assume h: "a @ t = u \<and> b = t @ v"
    then have "balanced (t @ op # cl # v)" using bal_concat.IH(2) by simp
    then have "balanced (a @ (t @ op # cl # v))" using bal_concat.hyps(1) by (rule balanced.bal_concat[rotated]) 
    then show ?thesis using h by auto
  qed
qed

lemma bracket_loop_sound:
  "bracket_loop cs st \<Longrightarrow> set st \<subseteq> set (map snd brackets) \<Longrightarrow>
   balanced (rev (map opener st) @ filter is_bracket cs)"
proof (induction cs arbitrary: st)
  case Nil
  then show ?case by (simp add: balanced.bal_empty)
next
  case (Cons c cs)
  show ?case
  proof (cases "map_of brackets c")
    case (Some closer)
    then have pair: "(c, closer) \<in> set brackets" by (rule map_of_SomeD)
    then have cl: "closer \<in> set (map snd brackets)" by force
    have op: "opener closer = c" using pair by (auto simp: brackets_def opener_def)
    have "bracket_loop cs (closer # st)" using Cons.prems(1) Some by simp
    then have "balanced (rev (map opener (closer # st)) @ filter is_bracket cs)"
      using Cons.prems(2) cl by (intro Cons.IH) auto
    moreover have "is_bracket c" using pair by (force simp: is_bracket_def)
    ultimately show ?thesis using op by simp
  next
    case None
    show ?thesis
    proof (cases "c \<in> set (map snd brackets)")
      case True
      with None Cons.prems(1) obtain st' where st: "st = c # st'" and l: "bracket_loop cs st'"
        by (auto split: list.splits if_splits)
      have "balanced (rev (map opener st') @ filter is_bracket cs)"
        using l Cons.prems(2) st by (intro Cons.IH) auto
      moreover have "(opener c, c) \<in> set brackets" using True by (auto simp: brackets_def opener_def)
      ultimately have "balanced (rev (map opener st') @ opener c # c # filter is_bracket cs)"
        by (intro balanced_insert[where x="rev (map opener st') @ filter is_bracket cs"]) auto
      moreover have "is_bracket c" using True by (simp add: is_bracket_def)
      ultimately show ?thesis using st by simp
    next
      case False
      then have "\<not> is_bracket c" using None by (auto simp: is_bracket_def brackets_def split: if_splits)
      moreover have "bracket_loop cs st" using None False Cons.prems(1) by simp
      ultimately show ?thesis using Cons.IH Cons.prems(2) by simp
    qed
  qed
qed

lemma bracket_loop_complete:
  "balanced w \<Longrightarrow> bracket_loop (w @ rest) st = bracket_loop rest st"
proof (induction w arbitrary: rest st rule: balanced.induct)
  case bal_empty
  show ?case by simp
next
  case (bal_wrap w op cl)
  have m: "map_of brackets op = Some cl" using bal_wrap.hyps(2) by (auto simp: brackets_def)
  have n: "map_of brackets cl = None" "cl \<in> set (map snd brackets)"
    using bal_wrap.hyps(2) by (auto simp: brackets_def)
  have "bracket_loop ((op # w @ [cl]) @ rest) st = bracket_loop (w @ (cl # rest)) (cl # st)"
    using m by simp
  also have "\<dots> = bracket_loop (cl # rest) (cl # st)" by (rule bal_wrap.IH)
  also have "\<dots> = bracket_loop rest st" using n by simp
  finally show ?case .
next
  case (bal_concat v w)
  then show ?case by simp
qed

text \<open>
  Claim C9. For every input string, both syntax validators return true exactly when the
  subsequence of the bracket characters \<^verbatim>\<open>( ) [ ] { }\<close> of the string is a properly
  balanced, properly nested sequence; every occurrence counts, wherever it stands, so a
  bracket inside a string literal or a comment counts too.
\<close>

theorem validateSyntax_iff_balanced:
  "validateSyntax code language = balanced (filter is_bracket code) \<and>
   hasValidSyntax code language = balanced (filter is_bracket code)"
proof -
  have "bracket_loop code [] = balanced (filter is_bracket code)"
  proof
    assume "bracket_loop code []"
    then show "balanced (filter is_bracket code)" using bracket_loop_sound[of code "[]"] by simp
  next
    assume "balanced (filter is_bracket code)"
    then have "bracket_loop (filter is_bracket code @ []) [] = bracket_loop [] []"
      by (rule bracket_loop_complete)
    then show "bracket_loop code []" by (simp add: bracket_loop_filter)
  qed
  then show ?thesis by (simp add: validateSyntax_def hasValidSyntax_def)
qed

text \<open>
  An unmatched bracket inside a string literal makes the validator reject the code, and
  by the theorem its bracket sequence is not balanced; nested brackets are accepted.
\<close>

theorem validateSyntax_iff_balanced_witness:
  \<open>\<not> validateSyntax ''s = "(";'' ''typescript'' \<and>
   \<not> balanced (filter is_bracket ''s = "(";'') \<and>
   balanced (filter is_bracket ''f(a[0]) { }'')\<close>
  using validateSyntax_iff_balanced [of \<open>''s = "(";''\<close> "''typescript''"]
        validateSyntax_iff_balanced [of "''f(a[0]) { }''" "''typescript''"]
  by (simp add: validateSyntax_def brackets_def)

section \<open>Proofs: cleanCode\<close>

lemma no_fence_suffix:
  assumes "\<not> js_includes s ''```''" and "suffix t s"
  shows "\<not> prefix ''```'' t" and "\<not> prefix ''\<newline>```'' t"
proof -
  show "\<not> prefix ''```'' t" using assms js_includes_iff by blast
  show "\<not> prefix ''\<newline>```'' t"
  proof
    assume "prefix ''\<newline>```'' t"
    then obtain r where t: "t = ''\<newline>```'' @ r" by (auto simp: prefix_def)
    then have "suffix (''```'' @ r) t" by (simp add: suffix_def)
    then have "suffix (''```'' @ r) s" using assms(2) by (rule suffix_order.trans)
    moreover have "prefix ''```'' (''```'' @ r)" by simp
    ultimately show False using assms(1) js_includes_iff by blast
  qed
qed

lemma cleanCode_open_no_match:
  "\<not> prefix ''```'' t \<Longrightarrow> match_at cleanCode_open_re q t = None"
  by (simp add: match_at_def cleanCode_open_re_def Let_def lit_match_None del: lit_match.simps)

lemma cleanCode_close_no_match:
  "\<not> prefix ''\<newline>```'' t \<Longrightarrow> match_at cleanCode_close_re q t = None"
  by (simp add: match_at_def cleanCode_close_re_def Let_def lit_match_None del: lit_match.simps)

text \<open>
  Claim C8, as the code has it. For every string that contains no code-fence marker,
  \<open>cleanCode\<close> removes nothing but the white space at both ends: the result is the
  trimmed string. The string comes back unchanged only when it has no leading or trailing
  white space.
\<close>

theorem cleanCode_trims_unfenced:
  assumes "\<not> js_includes s ''```''"
  shows "cleanCode s = trim s"
proof -
  have "search cleanCode_open_re [] s = None"
    by (rule search_NoneI) (rule cleanCode_open_no_match, rule no_fence_suffix(1)[OF assms])
  then have 1: "replace_first cleanCode_open_re s [] = s"
    by (simp add: replace_first_def exec_from_def)
  have "search cleanCode_close_re [] s = None"
    by (rule search_NoneI) (rule cleanCode_close_no_match, rule no_fence_suffix(2)[OF assms])
  then have 2: "replace_all cleanCode_close_re s [] = s"
    by (simp add: replace_all_def exec_from_def)
  show ?thesis by (simp add: cleanCode_def 1 2)
qed

theorem cleanCode_trims_unfenced_witness:
  "\<not> js_includes ''  let x = 1;  '' ''```'' \<and> cleanCode ''  let x = 1;  '' = ''let x = 1;''"
proof -
  have h: "\<not> js_includes ''  let x = 1;  '' ''```''" by code_simp
  have "cleanCode ''  let x = 1;  '' = trim ''  let x = 1;  ''"
    using cleanCode_trims_unfenced [OF h] .
  moreover have "trim ''  let x = 1;  '' = ''let x = 1;''" by code_simp
  ultimately show ?thesis using h by simp
qed

text \<open>
  Claim C8 as stated fails: a string without fence markers that starts with a space is
  not returned unchanged.
\<close>

theorem cleanCode_unchanged_counterexample:
  "\<not> js_includes '' x'' ''```'' \<and> cleanCode '' x'' \<noteq> '' x''"
  by code_simp


section \<open>Proofs: the project indexer\<close>

lemma group1_all_returns:
  "0 < min_len (rx_re re) \<Longrightarrow> \<exists>gs. group1_all re line = Some gs"
  using exec_all_returns[of re line] by (auto simp: group1_all_def)

lemma collect_all_returns:
  "(\<And>f. f \<in> set fs \<Longrightarrow> \<exists>xs. f line = Some xs) \<Longrightarrow> \<exists>ys. collect_all fs line = Some ys"
proof (induction fs)
  case Nil
  then show ?case by simp
next
  case (Cons f fs)
  obtain xs where "f line = Some xs" using Cons.prems[of f] by auto
  moreover obtain ys where "collect_all fs line = Some ys" using Cons by auto
  ultimately show ?case by simp
qed

lemma collect_patterns_returns:
  assumes "\<And>re. re \<in> set res \<Longrightarrow> 0 < min_len (rx_re re)"
  shows "\<exists>ys. collect_all (map group1_all res) line = Some ys"
proof (rule collect_all_returns)
  fix f assume "f \<in> set (map group1_all res)"
  then obtain re where "re \<in> set res" and f: "f = group1_all re" by auto
  then have "0 < min_len (rx_re re)" using assms by simp
  then show "\<exists>xs. f line = Some xs" unfolding f by (rule group1_all_returns)
qed

lemmas rx_defs = rxg_def Plus_def LPlus_def rx_s_def rx_d_def rx_w_def rx_any_def rx_not_nl_def rx_dot_def
  rx_ident_def rx_quote_def rx_unquoted_def rx_dotted_def rx_export_head_def rx_opt_kw_def rx_kw_s_def

lemma import_patterns_nonempty: "re \<in> set (import_patterns l) \<Longrightarrow> 0 < min_len (rx_re re)"
  by (auto simp: import_patterns_def import_from_re_def import_bare_re_def import_call_re_def
      require_call_re_def py_import_re_def py_from_re_def rx_defs split: if_splits)

lemma export_patterns_nonempty: "re \<in> set (export_patterns l) \<Longrightarrow> 0 < min_len (rx_re re)"
  by (auto simp: export_patterns_def export_decl_ts_re_def export_list_re_def export_decl_js_re_def
      module_exports_re_def rx_defs split: if_splits)

lemma class_patterns_nonempty: "re \<in> set (class_patterns l) \<Longrightarrow> 0 < min_len (rx_re re)"
  by (auto simp: class_patterns_def rx_defs split: if_splits)

lemma function_patterns_nonempty: "re \<in> set (function_patterns l) \<Longrightarrow> 0 < min_len (rx_re re)"
  by (auto simp: function_patterns_def function_decl_re_def method_decl_re_def
      function_assign_re_def rx_defs split: if_splits)

lemma interface_patterns_nonempty: "re \<in> set (interface_patterns l) \<Longrightarrow> 0 < min_len (rx_re re)"
  by (auto simp: interface_patterns_def rx_defs split: if_splits)

lemma parse_line_returns: "\<exists>r. parse_line line l result = Some r"
proof -
  obtain i where i: "extractImports (trim line) l = Some i"
    using collect_patterns_returns[of "import_patterns l" "trim line"] import_patterns_nonempty[of _ l]
    by (auto simp: extractImports_def)
  obtain e where e: "extractExports (trim line) l = Some e"
    using collect_patterns_returns[of "export_patterns l" "trim line"] export_patterns_nonempty[of _ l]
    by (auto simp: extractExports_def)
  obtain c where c: "extractClasses (trim line) l = Some c"
    using collect_patterns_returns[of "class_patterns l" "trim line"] class_patterns_nonempty[of _ l]
    by (auto simp: extractClasses_def)
  obtain f where f: "extractFunctions (trim line) l = Some f"
    using collect_patterns_returns[of "function_patterns l" "trim line"] function_patterns_nonempty[of _ l]
    by (auto simp: extractFunctions_def)
  obtain n where n: "extractInterfaces (trim line) l = Some n"
    using collect_patterns_returns[of "interface_patterns l" "trim line"] interface_patterns_nonempty[of _ l]
    by (auto simp: extractInterfaces_def)
  show ?thesis by (simp add: parse_line_def Let_def i e c f n)
qed

lemma parse_lines_returns: "\<exists>r. parse_lines lines l result = Some r"
proof (induction lines arbitrary: result)
  case Nil
  then show ?case by simp
next
  case (Cons line lines)
  obtain r where "parse_line line l result = Some r" using parse_line_returns by blast
  then show ?case using Cons[of r] by simp
qed

lemma parseFileContent_returns: "\<exists>r. parseFileContent content l = Some r"
  using parse_lines_returns[of "js_split content ''\<newline>''" l empty_parse]
  by (auto simp: parseFileContent_def)

lemma parseFileContentSimple_returns: "\<exists>r. parseFileContentSimple content l = Some r"
proof -
  obtain c where c: "extractClassesSimple content l = Some c"
    using group1_all_returns[of "rxg (Seqs [Lit ''class'', Plus rx_s, Grp 1 rx_ident])" content]
    by (auto simp: extractClassesSimple_def rx_defs)
  obtain f where f: "extractFunctionsSimple content l = Some f"
    using group1_all_returns[of "rxg (Seqs [Lit ''function'', Plus rx_s, Grp 1 rx_ident])" content]
    by (auto simp: extractFunctionsSimple_def rx_defs)
  obtain n where n: "extractInterfacesSimple content l = Some n"
    using group1_all_returns[of "rxg (Seqs [Lit ''interface'', Plus rx_s, Grp 1 rx_ident])" content]
    by (auto simp: extractInterfacesSimple_def rx_defs)
  show ?thesis by (simp add: parseFileContentSimple_def c f n)
qed

lemma indexFile_returns:
  "\<exists>r. indexFile h filePath options st = Some r \<and> (r = None \<longleftrightarrow> unreadable h filePath)"
proof (cases "h_stat h filePath")
  case None
  then show ?thesis by (simp add: indexFile_def unreadable_def)
next
  case (Some sm)
  obtain sz mtime where sm: "sm = (sz, mtime)" by (cases sm)
  show ?thesis
  proof (cases "h_read h filePath")
    case None
    then show ?thesis using Some sm by (simp add: indexFile_def unreadable_def)
  next
    case (Some content)
    obtain r where "(if enableASTParsing options then parseFileContent content (detectLanguage filePath)
                     else parseFileContentSimple content (detectLanguage filePath)) = Some r"
      using parseFileContent_returns[of content "detectLanguage filePath"]
        parseFileContentSimple_returns[of content "detectLanguage filePath"]
      by (cases "enableASTParsing options") auto
    then show ?thesis using Some \<open>h_stat h filePath = Some sm\<close> sm
      by (simp add: indexFile_def unreadable_def Let_def)
  qed
qed

lemma obj_replace_keys: "map fst (obj_replace obj k v) = map fst obj"
  by (induction obj) auto

lemma obj_insert_index_length: "length (obj_insert_index obj k v) = Suc (length obj)"
  by (induction obj) auto

lemma obj_insert_index_keys:
  "set (map fst (obj_insert_index obj k v)) = insert k (set (map fst obj))"
proof (induction obj)
  case Nil
  then show ?case by simp
next
  case (Cons kv obj)
  obtain k' v' where kv: "kv = (k', v')" by (cases kv)
  show ?case
  proof (cases "is_array_index k' \<and> index_less k' k")
    case True
    then have "obj_insert_index (kv # obj) k v = (k', v') # obj_insert_index obj k v"
      using kv by simp
    then show ?thesis using Cons.IH kv by (simp add: insert_commute)
  next
    case False
    then have "obj_insert_index (kv # obj) k v = (k, v) # (k', v') # obj"
      using kv by auto
    then show ?thesis using kv by simp
  qed
qed

lemma obj_set_length:
  "length (obj_set obj k v) =
     (if k = ''__proto__'' \<or> k \<in> set (obj_keys obj) then length obj else Suc (length obj))"
proof -
  have "length (obj_replace obj k v) = length obj"
    using obj_replace_keys[of obj k v] by (metis length_map)
  then show ?thesis by (simp add: obj_set_def obj_keys_def obj_insert_index_length)
qed

lemma obj_set_keys:
  "set (obj_keys (obj_set obj k v)) =
     (if k = ''__proto__'' then set (obj_keys obj) else insert k (set (obj_keys obj)))"
proof -
  have "k \<in> set (map fst obj) \<Longrightarrow> set (map fst (obj_replace obj k v)) = insert k (set (map fst obj))"
    by (simp add: obj_replace_keys insert_absorb)
  then show ?thesis
    unfolding obj_set_def obj_keys_def using obj_insert_index_keys[of obj k v] by auto
qed

lemma store_file_fields:
  "isIndexing (store_file f r st) = isIndexing st"
  "lastIndexTime (store_file f r st) = lastIndexTime st"
  "workspaceRoot (store_file f r st) = workspaceRoot st"
  by (cases r; simp add: store_file_def)+

lemma index_files_keys:
  assumes "distinct (map path_basename files)"
    and "set (map path_basename files) \<inter> set (obj_keys (projectIndex st)) = {}"
  shows "\<exists>st'. index_files h options files st = Some st' \<and>
           set (obj_keys (projectIndex st')) =
             set (obj_keys (projectIndex st)) \<union> path_basename ` {f \<in> set files. recorded h f} \<and>
           length (projectIndex st') = length (projectIndex st) + length (filter (recorded h) files) \<and>
           isIndexing st' = isIndexing st \<and> lastIndexTime st' = lastIndexTime st \<and>
           workspaceRoot st' = workspaceRoot st"
  using assms
proof (induction files arbitrary: st)
  case Nil
  then show ?case by simp
next
  case (Cons f files)
  obtain r where r: "indexFile h f options st = Some r" "r = None \<longleftrightarrow> unreadable h f"
    using indexFile_returns by blast
  let ?st1 = "store_file f r st"
  have fresh: "path_basename f \<notin> set (obj_keys (projectIndex st))" using Cons.prems(2) by auto
  have k1: "set (obj_keys (projectIndex ?st1)) =
            set (obj_keys (projectIndex st)) \<union> (if recorded h f then {path_basename f} else {})"
    using r(2) by (cases r) (auto simp: store_file_def obj_set_keys recorded_def)
  have l1: "length (projectIndex ?st1) =
            length (projectIndex st) + (if recorded h f then 1 else 0)"
    using r(2) fresh by (cases r) (auto simp: store_file_def obj_set_length recorded_def)
  have d: "distinct (map path_basename files)" using Cons.prems(1) by simp
  have disj: "set (map path_basename files) \<inter> set (obj_keys (projectIndex ?st1)) = {}"
    using Cons.prems k1 by auto
  from Cons.IH[OF d disj] obtain st' where st':
    "index_files h options files ?st1 = Some st'"
    "set (obj_keys (projectIndex st')) =
       set (obj_keys (projectIndex ?st1)) \<union> path_basename ` {f \<in> set files. recorded h f}"
    "length (projectIndex st') = length (projectIndex ?st1) + length (filter (recorded h) files)"
    "isIndexing st' = isIndexing ?st1" "lastIndexTime st' = lastIndexTime ?st1"
    "workspaceRoot st' = workspaceRoot ?st1" by blast
  have "index_files h options (f # files) st = Some st'" using r(1) st'(1) by simp
  moreover have "set (obj_keys (projectIndex st')) =
      set (obj_keys (projectIndex st)) \<union> path_basename ` {g \<in> set (f # files). recorded h g}"
    using st'(2) k1 by auto
  moreover have "length (projectIndex st') =
      length (projectIndex st) + length (filter (recorded h) (f # files))"
    using st'(3) l1 by simp
  ultimately show ?case using st'(4,5,6) store_file_fields[of f r st] by auto
qed

text \<open>
  What a build stores, for candidate files with distinct base names: one record for each
  file that can be read and is not named \<^verbatim>\<open>__proto__\<close>.
\<close>

lemma buildIndex_record_count:
  assumes idle: "\<not> isIndexing st"
    and files: "findFiles h (final_options options) ((updateWorkspaceRoot h st)\<lparr>isIndexing := True\<rparr>) = files"
    and names: "distinct (map path_basename files)"
  shows "\<exists>idx st'. buildIndex h options st = Some (idx, st') \<and>
           length idx = length (filter (recorded h) files) \<and>
           set (obj_keys idx) = path_basename ` {f \<in> set files. recorded h f} \<and>
           projectIndex st' = idx \<and> \<not> isIndexing st'"
proof -
  let ?st1 = "(updateWorkspaceRoot h st)\<lparr>isIndexing := True\<rparr>"
  let ?st0 = "?st1\<lparr>projectIndex := []\<rparr>"
  have "set (map path_basename files) \<inter> set (obj_keys (projectIndex ?st0)) = {}"
    by (simp add: obj_keys_def)
  from index_files_keys[OF names this, of h "final_options options"] obtain st2 where
    run: "index_files h (final_options options) files ?st0 = Some st2" and
    keys: "set (obj_keys (projectIndex st2)) = path_basename ` {f \<in> set files. recorded h f}" and
    len: "length (projectIndex st2) = length (filter (recorded h) files)"
    by (auto simp: obj_keys_def)
  show ?thesis using idle files run keys len by (simp add: buildIndex_def Let_def)
qed

text \<open>
  A file that cannot be read is skipped. For ten candidate files with distinct base names,
  none of them \<^verbatim>\<open>__proto__\<close>, of which exactly one cannot be read and nine can,
  \<open>buildIndex\<close> returns (no error, no call that hangs) an index with exactly nine
  records, one under the base name of each readable file.
\<close>

lemma buildIndex_skips_unreadable_file:
  assumes idle: "\<not> isIndexing st"
    and files: "findFiles h (final_options options) ((updateWorkspaceRoot h st)\<lparr>isIndexing := True\<rparr>) = files"
    and ten: "length files = 10"
    and names: "distinct (map path_basename files)"
    and no_proto: "''__proto__'' \<notin> set (map path_basename files)"
    and one_bad: "length (filter (unreadable h) files) = 1"
  shows "\<exists>idx st'. buildIndex h options st = Some (idx, st') \<and> length idx = 9 \<and>
           set (obj_keys idx) = path_basename ` {f \<in> set files. \<not> unreadable h f} \<and>
           distinct (obj_keys idx) \<and>
           projectIndex st' = idx \<and> \<not> isIndexing st'"
proof -
  have rec: "recorded h f = (\<not> unreadable h f)" if "f \<in> set files" for f
  proof -
    have "path_basename f \<in> set (map path_basename files)" using that by simp
    then have "path_basename f \<noteq> ''__proto__''" using no_proto by metis
    then show ?thesis by (simp add: recorded_def)
  qed
  then have flt: "filter (recorded h) files = filter (\<lambda>f. \<not> unreadable h f) files"
    by (intro filter_cong) auto
  have st: "{f \<in> set files. recorded h f} = {f \<in> set files. \<not> unreadable h f}"
    using rec by auto
  have "length (filter (\<lambda>f. \<not> unreadable h f) files) + length (filter (unreadable h) files) = length files"
    using sum_length_filter_compl[of "unreadable h" files] by simp
  then have nine: "length (filter (recorded h) files) = 9" using ten one_bad flt by simp
  from buildIndex_record_count[OF idle files names] obtain idx st' where
    r: "buildIndex h options st = Some (idx, st')" "length idx = length (filter (recorded h) files)"
       "set (obj_keys idx) = path_basename ` {f \<in> set files. recorded h f}"
       "projectIndex st' = idx" "\<not> isIndexing st'" by blast
  have dk: "distinct (obj_keys idx)"
  proof -
    have inj: "inj_on path_basename (set files)" using names by (simp add: distinct_map)
    have "card (set (obj_keys idx)) = card (path_basename ` set (filter (recorded h) files))"
      using r(3) by simp
    also have "\<dots> = card (set (filter (recorded h) files))"
      by (intro card_image inj_on_subset[OF inj]) auto
    also have "\<dots> = length (filter (recorded h) files)"
    proof -
      have "distinct files" using names by (simp add: distinct_map)
      then have "distinct (filter (recorded h) files)" by simp
      then show ?thesis by (rule distinct_card)
    qed
    also have "\<dots> = length (obj_keys idx)" using r(2) by (simp add: obj_keys_def)
    finally show ?thesis by (rule card_distinct)
  qed
  show ?thesis using r nine st dk by auto
qed

text \<open>The example workspace: ten files found, one of them unreadable.\<close>

lemma demo_sorted: "js_sort (unique demo_files) = demo_files"
  by code_simp

lemma demo_options: "final_options no_options = default_options"
  by (simp add: final_options_def no_options_def)

lemma demo_glob:
  "concat (map (\<lambda>pattern.
             case h_glob demo_host pattern ''/w'' (excludePatterns default_options) of
               Inl e \<Rightarrow> []
             | Inr files \<Rightarrow> files) (includePatterns default_options)) = demo_files"
  by (simp add: default_options_def demo_host_def)

lemma demo_sizes:
  "filter (\<lambda>file. case h_stat demo_host file of
                     None \<Rightarrow> False
                   | Some (sz, mtime) \<Rightarrow> sz \<le> maxFileSize default_options) demo_files = demo_files"
  by (simp add: default_options_def demo_host_def demo_files_def)

lemma demo_cut: "take (maxFiles default_options) demo_files = demo_files"
  by (simp add: default_options_def demo_files_def)

lemma demo_root:
  "workspaceRoot ((updateWorkspaceRoot demo_host (new_indexer demo_host))\<lparr>isIndexing := True\<rparr>) = ''/w''"
  by code_simp

lemma demo_findFiles:
  "findFiles demo_host (final_options no_options)
     ((updateWorkspaceRoot demo_host (new_indexer demo_host))\<lparr>isIndexing := True\<rparr>) = demo_files"
  unfolding findFiles_def Let_def demo_options demo_root demo_glob demo_sorted demo_cut demo_sizes
  by simp

lemma buildIndex_skips_unreadable_file_example:
  "\<exists>idx st'. buildIndex demo_host no_options (new_indexer demo_host) = Some (idx, st') \<and>
     length idx = 9 \<and>
     set (obj_keys idx) =
       {''a.ts'', ''b.ts'', ''d.ts'', ''e.ts'', ''f.ts'', ''g.ts'', ''h.ts'', ''i.ts'', ''j.ts''} \<and>
     distinct (obj_keys idx) \<and> projectIndex st' = idx \<and> \<not> isIndexing st'"
proof -
  have idle: "\<not> isIndexing (new_indexer demo_host)" by code_simp
  have ten: "length demo_files = 10" by code_simp
  have names: "distinct (map path_basename demo_files)" by code_simp
  have no_proto: "''__proto__'' \<notin> set (map path_basename demo_files)" by code_simp
  have one_bad: "length (filter (unreadable demo_host) demo_files) = 1" by code_simp
  have "map path_basename (filter (\<lambda>f. \<not> unreadable demo_host f) demo_files) =
     [''a.ts'', ''b.ts'', ''d.ts'', ''e.ts'', ''f.ts'', ''g.ts'', ''h.ts'', ''i.ts'', ''j.ts'']"
    by code_simp
  then have "set (map path_basename (filter (\<lambda>f. \<not> unreadable demo_host f) demo_files)) =
     {''a.ts'', ''b.ts'', ''d.ts'', ''e.ts'', ''f.ts'', ''g.ts'', ''h.ts'', ''i.ts'', ''j.ts''}"
    by simp
  then have keys: "path_basename ` {f \<in> set demo_files. \<not> unreadable demo_host f} =
     {''a.ts'', ''b.ts'', ''d.ts'', ''e.ts'', ''f.ts'', ''g.ts'', ''h.ts'', ''i.ts'', ''j.ts''}"
    by simp
  show ?thesis
    using buildIndex_skips_unreadable_file [OF idle demo_findFiles ten names no_proto one_bad]
    unfolding keys .
qed

text \<open>
  A second workspace: ten files with distinct base names, one of them unreadable and one
  named \<^verbatim>\<open>__proto__\<close>, indexed with the include pattern \<^verbatim>\<open>**/*\<close>, the one that
  \<open>updateFileIndex\<close> uses.
\<close>

lemma proto_sorted: "js_sort (unique demo_files_proto) = demo_files_proto"
  by code_simp

lemma proto_options:
  "final_options demo_all_files = default_options\<lparr>includePatterns := [''**/*'']\<rparr>"
  by (simp add: final_options_def demo_all_files_def no_options_def default_options_def)

lemma proto_glob:
  "concat (map (\<lambda>pattern.
             case h_glob demo_host_proto pattern ''/w''
                    (excludePatterns (default_options\<lparr>includePatterns := [''**/*'']\<rparr>)) of
               Inl e \<Rightarrow> []
             | Inr files \<Rightarrow> files)
           (includePatterns (default_options\<lparr>includePatterns := [''**/*'']\<rparr>))) = demo_files_proto"
  by (simp add: demo_host_proto_def)

lemma proto_sizes:
  "filter (\<lambda>file. case h_stat demo_host_proto file of
                     None \<Rightarrow> False
                   | Some (sz, mtime) \<Rightarrow>
                       sz \<le> maxFileSize (default_options\<lparr>includePatterns := [''**/*'']\<rparr>))
          demo_files_proto = demo_files_proto"
  by (simp add: default_options_def demo_host_proto_def demo_files_proto_def)

lemma proto_cut:
  "take (maxFiles (default_options\<lparr>includePatterns := [''**/*'']\<rparr>)) demo_files_proto = demo_files_proto"
  by (simp add: default_options_def demo_files_proto_def)

lemma proto_root:
  "workspaceRoot ((updateWorkspaceRoot demo_host_proto (new_indexer demo_host_proto))\<lparr>isIndexing := True\<rparr>) = ''/w''"
  by code_simp

lemma proto_findFiles:
  "findFiles demo_host_proto (final_options demo_all_files)
     ((updateWorkspaceRoot demo_host_proto (new_indexer demo_host_proto))\<lparr>isIndexing := True\<rparr>) =
   demo_files_proto"
  unfolding findFiles_def Let_def proto_options proto_root proto_glob proto_sorted proto_cut proto_sizes
  by simp

text \<open>
  Claim C7 fails on the code. The ten candidate files of the second workspace have
  distinct base names, exactly one of them cannot be read and the other nine index
  successfully, but the index \<open>buildIndex\<close> returns has eight records: the assignment
  \<^verbatim>\<open>this.projectIndex[fileName] = fileIndex\<close> for the file named \<^verbatim>\<open>__proto__\<close> sets the
  prototype of the index object and creates no record.
\<close>

theorem buildIndex_proto_file_not_recorded:
  "length demo_files_proto = 10 \<and>
   distinct (map path_basename demo_files_proto) \<and>
   length (filter (unreadable demo_host_proto) demo_files_proto) = 1 \<and>
   \<not> unreadable demo_host_proto ''/w/__proto__'' \<and>
   findFiles demo_host_proto (final_options demo_all_files)
     ((updateWorkspaceRoot demo_host_proto (new_indexer demo_host_proto))\<lparr>isIndexing := True\<rparr>) =
     demo_files_proto \<and>
   map_option (\<lambda>(idx, st'). length idx)
     (buildIndex demo_host_proto demo_all_files (new_indexer demo_host_proto)) = Some 8"
proof -
  have idle: "\<not> isIndexing (new_indexer demo_host_proto)" by code_simp
  have ten: "length demo_files_proto = 10" by code_simp
  have names: "distinct (map path_basename demo_files_proto)" by code_simp
  have one_bad: "length (filter (unreadable demo_host_proto) demo_files_proto) = 1" by code_simp
  have eight: "length (filter (recorded demo_host_proto) demo_files_proto) = 8" by code_simp
  have proto: "\<not> unreadable demo_host_proto ''/w/__proto__''" by code_simp
  from buildIndex_record_count[OF idle proto_findFiles names] obtain idx st' where
    "buildIndex demo_host_proto demo_all_files (new_indexer demo_host_proto) = Some (idx, st')"
    "length idx = length (filter (recorded demo_host_proto) demo_files_proto)" by blast
  then have "map_option (\<lambda>(idx, st'). length idx)
     (buildIndex demo_host_proto demo_all_files (new_indexer demo_host_proto)) = Some 8"
    using eight by simp
  then show ?thesis using ten names one_bad proto proto_findFiles by simp
qed

section \<open>Proofs: buildIndex as a task\<close>

text \<open>In every state a schedule reaches, \<open>isIndexing\<close> is set exactly while a build is in flight.\<close>

lemma buildIndex_call_flag:
  "isIndexing (ix s) = (task s \<noteq> None) \<Longrightarrow> buildIndex_call h options s = (r, s') \<Longrightarrow>
   isIndexing (ix s') = (task s' \<noteq> None)"
  by (auto simp: buildIndex_call_def split: if_splits)

lemma build_resume_flag:
  "isIndexing (ix s) = (task s \<noteq> None) \<Longrightarrow> build_resume h s = Some s' \<Longrightarrow>
   isIndexing (ix s') = (task s' \<noteq> None)"
  by (auto simp: build_resume_def Let_def store_file_fields split: option.splits build_task.splits)

lemma run_events_flag:
  "run_events h es s = Some (rs, s') \<Longrightarrow> isIndexing (ix s) = (task s \<noteq> None) \<Longrightarrow>
   isIndexing (ix s') = (task s' \<noteq> None)"
proof (induction es arbitrary: s rs)
  case Nil
  then show ?case by simp
next
  case (Cons e es)
  show ?case
  proof (cases e)
    case (CallBuildIndex options)
    obtain r s1 where c: "buildIndex_call h options s = (r, s1)" by (cases "buildIndex_call h options s")
    from Cons.prems(1) c CallBuildIndex obtain rs1 where run: "run_events h es s1 = Some (rs1, s')"
      by auto
    have "isIndexing (ix s1) = (task s1 \<noteq> None)" using Cons.prems(2) c by (rule buildIndex_call_flag)
    with run show ?thesis by (rule Cons.IH)
  next
    case CallGetIndex
    from Cons.prems(1) CallGetIndex obtain rs1 where run: "run_events h es s = Some (rs1, s')"
      by (auto simp: getIndex_call_def)
    from run Cons.prems(2) show ?thesis by (rule Cons.IH)
  next
    case Resume
    from Cons.prems(1) Resume obtain s1 where r: "build_resume h s = Some s1"
      and run: "run_events h es s1 = Some (rs, s')"
      by (auto split: option.splits)
    have "isIndexing (ix s1) = (task s1 \<noteq> None)" using Cons.prems(2) r by (rule build_resume_flag)
    with run show ?thesis by (rule Cons.IH)
  qed
qed

text \<open>
  Claim C6, as the code has it. Whenever \<open>buildIndex\<close> is called while a build is in
  progress (in any state a schedule reaches from an idle indexer), the call returns at
  once, without error and without waiting, a reference to the indexer's current index
  object, and changes nothing. That object is no snapshot: when the scan starts, a new
  empty object becomes the current one (the previous object keeps its content), and each
  step of the scan that has indexed a file stores the record in the current object in
  place, so that whoever holds the reference sees the index under construction.
\<close>

theorem buildIndex_during_scan:
  assumes "idle s0" and "run_events h es s0 = Some (rs, s)" and "task s \<noteq> None"
  shows "buildIndex_call h options s = (Returned (cur s), s) \<and>
         (\<forall>opts s'. task s = Some (AwaitFindFiles opts) \<longrightarrow> build_resume h s = Some s' \<longrightarrow>
            cur s' = Suc (cur s) \<and> deref s' (cur s') = [] \<and> deref s' (cur s) = deref s (cur s)) \<and>
         (\<forall>opts f fi rest s'.
            task s = Some (AwaitIndexFile opts f (Some fi) rest) \<longrightarrow> build_resume h s = Some s' \<longrightarrow>
            cur s' = cur s \<and> deref s' (cur s) = obj_set (deref s (cur s)) (path_basename f) fi)"
proof -
  have "isIndexing (ix s0) = (task s0 \<noteq> None)" using assms(1) by (simp add: idle_def)
  then have "isIndexing (ix s) = (task s \<noteq> None)" using assms(2) run_events_flag by blast
  then have busy: "isIndexing (ix s)" using assms(3) by simp
  have a: "buildIndex_call h options s = (Returned (cur s), s)"
    using busy by (simp add: buildIndex_call_def)
  have b: "cur s' = Suc (cur s) \<and> deref s' (cur s') = [] \<and> deref s' (cur s) = deref s (cur s)"
    if "task s = Some (AwaitFindFiles opts)" "build_resume h s = Some s'" for opts s'
  proof -
    from that obtain t where s': "s' = \<lparr>ix = (ix s)\<lparr>projectIndex := []\<rparr>,
        old = old s @ [projectIndex (ix s)], task = Some t\<rparr>"
      by (auto simp: build_resume_def Let_def)
    show ?thesis unfolding s' by (simp add: cur_def deref_def nth_append)
  qed
  have c: "cur s' = cur s \<and> deref s' (cur s) = obj_set (deref s (cur s)) (path_basename f) fi"
    if "task s = Some (AwaitIndexFile opts f (Some fi) rest)" "build_resume h s = Some s'"
    for opts f fi rest s'
  proof -
    from that obtain t where s': "s' = \<lparr>ix = store_file f (Some fi) (ix s), old = old s, task = Some t\<rparr>"
      by (auto simp: build_resume_def Let_def)
    show ?thesis unfolding s' by (simp add: cur_def deref_def store_file_def)
  qed
  show ?thesis using a b c by blast
qed

text \<open>
  The uninterrupted \<open>buildIndex\<close> is one schedule of the task: the call followed by
  enough resumptions.
\<close>

lemma findFiles_root:
  "workspaceRoot st = workspaceRoot st' \<Longrightarrow> findFiles h options st = findFiles h options st'"
  by (simp add: findFiles_def)

lemma resume_loop:
  "index_files h options files st = Some st' \<Longrightarrow> next_file h options files st = Some t \<Longrightarrow>
   run_events h (replicate (length files) Resume) \<lparr>ix = st, old = os, task = Some t\<rparr> =
     Some ([], \<lparr>ix = st', old = os, task = Some AwaitProgress\<rparr>)"
proof (induction files arbitrary: st t)
  case Nil
  then show ?case by (simp add: next_file_def)
next
  case (Cons f fs)
  from Cons.prems(1) obtain r where r: "indexFile h f options st = Some r"
    and rest: "index_files h options fs (store_file f r st) = Some st'"
    by (auto split: option.splits)
  have t: "t = AwaitIndexFile options f r fs" using Cons.prems(2) r by (simp add: next_file_def)
  obtain t' where t': "next_file h options fs (store_file f r st) = Some t'"
    using rest by (cases fs) (auto simp: next_file_def split: option.splits)
  have "build_resume h \<lparr>ix = st, old = os, task = Some t\<rparr> =
          Some \<lparr>ix = store_file f r st, old = os, task = Some t'\<rparr>"
    using t t' by (simp add: build_resume_def)
  then show ?case using Cons.IH[OF rest t'] by simp
qed

lemma run_events_append:
  "run_events h (es @ es') s =
      (case run_events h es s of None \<Rightarrow> None
       | Some (rs, s1) \<Rightarrow> map_option (\<lambda>(rs', s2). (rs @ rs', s2)) (run_events h es' s1))"
proof (induction h es s rule: run_events.induct)
  case (1 h s)
  then show ?case by (cases "run_events h es' s") auto
next
  case (2 h options es s)
  then show ?case
    by (cases "buildIndex_call h options s")
      (auto split: option.splits simp: option.map_comp comp_def case_prod_unfold)
next
  case (3 h es s)
  then show ?case
    by (auto split: option.splits simp: getIndex_call_def option.map_comp comp_def case_prod_unfold)
next
  case (4 h es s)
  then show ?case by (auto split: option.splits)
qed

lemma buildIndex_as_schedule:
  assumes "\<not> isIndexing st" and "buildIndex h options st = Some (idx, st')"
  shows "\<exists>n. run_events h (CallBuildIndex options # replicate n Resume) \<lparr>ix = st, old = os, task = None\<rparr> =
           Some ([Pending], \<lparr>ix = st', old = os @ [projectIndex st], task = None\<rparr>)"
proof -
  let ?st1 = "(updateWorkspaceRoot h st)\<lparr>isIndexing := True\<rparr>"
  let ?fo = "final_options options"
  let ?files = "findFiles h ?fo ?st1"
  let ?st0 = "?st1\<lparr>projectIndex := []\<rparr>"
  let ?os = "os @ [projectIndex st]"
  from assms obtain st2 where run: "index_files h ?fo ?files ?st0 = Some st2"
    and st': "st' = st2\<lparr>lastIndexTime := h_now h, isIndexing := False\<rparr>"
    by (auto simp: buildIndex_def Let_def split: option.splits)
  obtain t where t: "next_file h ?fo ?files ?st0 = Some t"
    using run by (cases ?files) (auto simp: next_file_def split: option.splits)
  have call: "buildIndex_call h options \<lparr>ix = st, old = os, task = None\<rparr> =
                (Pending, \<lparr>ix = ?st1, old = os, task = Some (AwaitFindFiles ?fo)\<rparr>)"
    using assms(1) by (simp add: buildIndex_call_def)
  have first: "build_resume h \<lparr>ix = ?st1, old = os, task = Some (AwaitFindFiles ?fo)\<rparr> =
                 Some \<lparr>ix = ?st0, old = ?os, task = Some t\<rparr>"
    using t by (simp add: build_resume_def Let_def updateWorkspaceRoot_def)
  have loop: "run_events h (replicate (length ?files) Resume) \<lparr>ix = ?st0, old = ?os, task = Some t\<rparr> =
                Some ([], \<lparr>ix = st2, old = ?os, task = Some AwaitProgress\<rparr>)"
    using run t by (rule resume_loop)
  have last: "build_resume h \<lparr>ix = st2, old = ?os, task = Some AwaitProgress\<rparr> =
                Some \<lparr>ix = st', old = ?os, task = None\<rparr>"
    by (simp add: build_resume_def st')
  have "run_events h (Resume # replicate (length ?files) Resume @ [Resume])
            \<lparr>ix = ?st1, old = os, task = Some (AwaitFindFiles ?fo)\<rparr>
          = Some ([], \<lparr>ix = st', old = ?os, task = None\<rparr>)"
    using first loop last by (simp add: run_events_append)
  then have "run_events h (CallBuildIndex options # replicate (length ?files + 2) Resume)
               \<lparr>ix = st, old = os, task = None\<rparr> =
             Some ([Pending], \<lparr>ix = st', old = ?os, task = None\<rparr>)"
    using call by (simp add: replicate_add replicate_append_same)
  then show ?thesis by blast
qed

text \<open>A scan of the example workspace, step by step.\<close>

lemma demo_parse:
  "parseFileContent ''export class A {}'' ''typescript'' =
     Some \<lparr>pr_exports = [''A''], pr_imports = [], pr_classes = [''A''], pr_functions = [],
           pr_interfaces = []\<rparr>"
  by code_simp

lemma demo_summary:
  "generateFileSummary ''export class A {}''
     \<lparr>pr_exports = [''A''], pr_imports = [], pr_classes = [''A''], pr_functions = [], pr_interfaces = []\<rparr>
     ''typescript'' = ''typescript file with 1 lines. 1 class: A''"
  by code_simp

lemma demo_lines: "length (js_split ''export class A {}'' ''\<newline>'') = 1"
  by code_simp

lemma demo_indexFile_a:
  "workspaceRoot st = ''/w'' \<Longrightarrow>
   indexFile demo_host ''/w/a.ts'' default_options st = Some (Some (demo_record ''a.ts''))"
proof -
  assume r: "workspaceRoot st = ''/w''"
  have 1: "h_stat demo_host ''/w/a.ts'' = Some (20, 1)" by (simp add: demo_host_def demo_files_def)
  have 2: "h_read demo_host ''/w/a.ts'' = Some ''export class A {}''"
    by (simp add: demo_host_def demo_files_def)
  have 3: "detectLanguage ''/w/a.ts'' = ''typescript''" by code_simp
  have 4: "path_relative ''/w'' ''/w/a.ts'' = ''a.ts''" by code_simp
  have 5: "enableASTParsing default_options" by (simp add: default_options_def)
  show ?thesis
    unfolding indexFile_def 1 2 3 r 4
    by (simp add: 5 demo_parse demo_summary demo_lines demo_record_def)
qed

lemma demo_indexFile_b:
  "workspaceRoot st = ''/w'' \<Longrightarrow>
   indexFile demo_host ''/w/b.ts'' default_options st = Some (Some (demo_record ''b.ts''))"
proof -
  assume r: "workspaceRoot st = ''/w''"
  have 1: "h_stat demo_host ''/w/b.ts'' = Some (20, 1)" by (simp add: demo_host_def demo_files_def)
  have 2: "h_read demo_host ''/w/b.ts'' = Some ''export class A {}''"
    by (simp add: demo_host_def demo_files_def)
  have 3: "detectLanguage ''/w/b.ts'' = ''typescript''" by code_simp
  have 4: "path_relative ''/w'' ''/w/b.ts'' = ''b.ts''" by code_simp
  have 5: "enableASTParsing default_options" by (simp add: default_options_def)
  show ?thesis
    unfolding indexFile_def 1 2 3 r 4
    by (simp add: 5 demo_parse demo_summary demo_lines demo_record_def)
qed

lemma demo_indexFile_c: "indexFile demo_host ''/w/c.ts'' default_options st = Some None"
proof -
  have 1: "h_stat demo_host ''/w/c.ts'' = Some (20, 1)" by (simp add: demo_host_def demo_files_def)
  have 2: "h_read demo_host ''/w/c.ts'' = None" by (simp add: demo_host_def)
  show ?thesis unfolding indexFile_def 1 2 by simp
qed

lemma demo_findFiles_root:
  assumes "workspaceRoot st = ''/w''"
  shows "findFiles demo_host default_options st = demo_files"
proof -
  have "findFiles demo_host default_options st =
        findFiles demo_host default_options
          ((updateWorkspaceRoot demo_host (new_indexer demo_host))\<lparr>isIndexing := True\<rparr>)"
    using assms demo_root by (intro findFiles_root) simp
  then show ?thesis using demo_findFiles by (simp add: demo_options)
qed

lemma demo_call:
  "buildIndex_call demo_host no_options demo_prev =
     (Pending, demo_scan [(''old.ts'', demo_old_record)] (AwaitFindFiles default_options)
                 \<lparr>old := []\<rparr>)"
  by (simp add: buildIndex_call_def demo_prev_def demo_scan_def demo_options updateWorkspaceRoot_def
      demo_host_def)

lemma demo_resume_1:
  "build_resume demo_host
     (demo_scan [(''old.ts'', demo_old_record)] (AwaitFindFiles default_options)\<lparr>old := []\<rparr>) =
   Some (demo_scan []
     (AwaitIndexFile default_options ''/w/a.ts'' (Some (demo_record ''a.ts''))
        [''/w/b.ts'', ''/w/c.ts'', ''/w/d.ts'', ''/w/e.ts'', ''/w/f.ts'', ''/w/g.ts'', ''/w/h.ts'',
         ''/w/i.ts'', ''/w/j.ts'']))"
  unfolding build_resume_def demo_scan_def
  by (simp add: demo_findFiles_root Let_def next_file_def demo_files_def demo_indexFile_a)

lemma demo_resume_2:
  "build_resume demo_host
     (demo_scan []
        (AwaitIndexFile default_options ''/w/a.ts'' (Some (demo_record ''a.ts''))
           [''/w/b.ts'', ''/w/c.ts'', ''/w/d.ts'', ''/w/e.ts'', ''/w/f.ts'', ''/w/g.ts'', ''/w/h.ts'',
            ''/w/i.ts'', ''/w/j.ts''])) =
   Some (demo_scan [(''a.ts'', demo_record ''a.ts'')]
     (AwaitIndexFile default_options ''/w/b.ts'' (Some (demo_record ''b.ts''))
        [''/w/c.ts'', ''/w/d.ts'', ''/w/e.ts'', ''/w/f.ts'', ''/w/g.ts'', ''/w/h.ts'', ''/w/i.ts'',
         ''/w/j.ts'']))"
proof -
  have k: "obj_set [] (path_basename ''/w/a.ts'') (demo_record ''a.ts'') = [(''a.ts'', demo_record ''a.ts'')]"
    by (simp add: obj_set_def path_basename_def is_array_index_def is_digit_def char_code_def)
  show ?thesis
    unfolding build_resume_def demo_scan_def
    by (simp add: Let_def next_file_def store_file_def k demo_indexFile_b)
qed

lemma demo_resume_3:
  "build_resume demo_host
     (demo_scan [(''a.ts'', demo_record ''a.ts'')]
        (AwaitIndexFile default_options ''/w/b.ts'' (Some (demo_record ''b.ts''))
           [''/w/c.ts'', ''/w/d.ts'', ''/w/e.ts'', ''/w/f.ts'', ''/w/g.ts'', ''/w/h.ts'', ''/w/i.ts'',
            ''/w/j.ts''])) =
   Some (demo_scan [(''a.ts'', demo_record ''a.ts''), (''b.ts'', demo_record ''b.ts'')]
     (AwaitIndexFile default_options ''/w/c.ts'' None
        [''/w/d.ts'', ''/w/e.ts'', ''/w/f.ts'', ''/w/g.ts'', ''/w/h.ts'', ''/w/i.ts'', ''/w/j.ts'']))"
proof -
  have k: "obj_set [(''a.ts'', demo_record ''a.ts'')] (path_basename ''/w/b.ts'') (demo_record ''b.ts'') =
           [(''a.ts'', demo_record ''a.ts''), (''b.ts'', demo_record ''b.ts'')]"
    by (simp add: obj_set_def path_basename_def is_array_index_def is_digit_def char_code_def)
  show ?thesis
    unfolding build_resume_def demo_scan_def
    by (simp add: Let_def next_file_def store_file_def k demo_indexFile_c)
qed

text \<open>
  The example: an indexer that holds the index of an earlier build (object 0, one file
  \<^verbatim>\<open>old.ts\<close>) starts a build. After the call the build waits for \<open>findFiles\<close>; its
  resumption makes a new empty object 1 the current one and leaves object 0 as it was.
  After two resumptions the scan has stored \<^verbatim>\<open>a.ts\<close> in object 1 and waits for \<^verbatim>\<open>b.ts\<close>:
  a call now returns object 1, and the next step of the scan puts \<^verbatim>\<open>b.ts\<close> into that
  same object.
\<close>

theorem buildIndex_during_scan_witness:
  "idle demo_prev \<and>
   run_events demo_host [CallBuildIndex no_options] demo_prev =
     Some ([Pending],
           demo_scan [(''old.ts'', demo_old_record)] (AwaitFindFiles default_options)\<lparr>old := []\<rparr>) \<and>
   deref (demo_scan []
            (AwaitIndexFile default_options ''/w/a.ts'' (Some (demo_record ''a.ts''))
               [''/w/b.ts'', ''/w/c.ts'', ''/w/d.ts'', ''/w/e.ts'', ''/w/f.ts'', ''/w/g.ts'',
                ''/w/h.ts'', ''/w/i.ts'', ''/w/j.ts''])) 1 = [] \<and>
   deref (demo_scan []
            (AwaitIndexFile default_options ''/w/a.ts'' (Some (demo_record ''a.ts''))
               [''/w/b.ts'', ''/w/c.ts'', ''/w/d.ts'', ''/w/e.ts'', ''/w/f.ts'', ''/w/g.ts'',
                ''/w/h.ts'', ''/w/i.ts'', ''/w/j.ts''])) 0 = [(''old.ts'', demo_old_record)] \<and>
   run_events demo_host [CallBuildIndex no_options, Resume, Resume] demo_prev =
     Some ([Pending],
           demo_scan [(''a.ts'', demo_record ''a.ts'')]
             (AwaitIndexFile default_options ''/w/b.ts'' (Some (demo_record ''b.ts''))
                [''/w/c.ts'', ''/w/d.ts'', ''/w/e.ts'', ''/w/f.ts'', ''/w/g.ts'', ''/w/h.ts'',
                 ''/w/i.ts'', ''/w/j.ts''])) \<and>
   buildIndex_call demo_host no_options
     (demo_scan [(''a.ts'', demo_record ''a.ts'')]
        (AwaitIndexFile default_options ''/w/b.ts'' (Some (demo_record ''b.ts''))
           [''/w/c.ts'', ''/w/d.ts'', ''/w/e.ts'', ''/w/f.ts'', ''/w/g.ts'', ''/w/h.ts'',
            ''/w/i.ts'', ''/w/j.ts''])) =
     (Returned 1,
      demo_scan [(''a.ts'', demo_record ''a.ts'')]
        (AwaitIndexFile default_options ''/w/b.ts'' (Some (demo_record ''b.ts''))
           [''/w/c.ts'', ''/w/d.ts'', ''/w/e.ts'', ''/w/f.ts'', ''/w/g.ts'', ''/w/h.ts'',
            ''/w/i.ts'', ''/w/j.ts''])) \<and>
   deref (demo_scan [(''a.ts'', demo_record ''a.ts''), (''b.ts'', demo_record ''b.ts'')]
            (AwaitIndexFile default_options ''/w/c.ts'' None
               [''/w/d.ts'', ''/w/e.ts'', ''/w/f.ts'', ''/w/g.ts'', ''/w/h.ts'', ''/w/i.ts'',
                ''/w/j.ts''])) 1 =
     obj_set [(''a.ts'', demo_record ''a.ts'')] ''b.ts'' (demo_record ''b.ts'')"
proof -
  let ?A = "demo_scan [(''old.ts'', demo_old_record)] (AwaitFindFiles default_options)\<lparr>old := []\<rparr>"
  let ?B = "demo_scan []
            (AwaitIndexFile default_options ''/w/a.ts'' (Some (demo_record ''a.ts''))
               [''/w/b.ts'', ''/w/c.ts'', ''/w/d.ts'', ''/w/e.ts'', ''/w/f.ts'', ''/w/g.ts'',
                ''/w/h.ts'', ''/w/i.ts'', ''/w/j.ts''])"
  let ?C = "demo_scan [(''a.ts'', demo_record ''a.ts'')]
             (AwaitIndexFile default_options ''/w/b.ts'' (Some (demo_record ''b.ts''))
                [''/w/c.ts'', ''/w/d.ts'', ''/w/e.ts'', ''/w/f.ts'', ''/w/g.ts'', ''/w/h.ts'',
                 ''/w/i.ts'', ''/w/j.ts''])"
  let ?D = "demo_scan [(''a.ts'', demo_record ''a.ts''), (''b.ts'', demo_record ''b.ts'')]
            (AwaitIndexFile default_options ''/w/c.ts'' None
               [''/w/d.ts'', ''/w/e.ts'', ''/w/f.ts'', ''/w/g.ts'', ''/w/h.ts'', ''/w/i.ts'',
                ''/w/j.ts''])"
  have i: "idle demo_prev" by (simp add: idle_def demo_prev_def)
  have run0: "run_events demo_host [CallBuildIndex no_options] demo_prev = Some ([Pending], ?A)"
    by (simp add: demo_call)
  have busy0: "task ?A \<noteq> None" by (simp add: demo_scan_def)
  have t0: "task ?A = Some (AwaitFindFiles default_options)" by (simp add: demo_scan_def)
  have c0: "cur ?A = 0" by (simp add: cur_def demo_scan_def)
  have d0: "deref ?A 0 = [(''old.ts'', demo_old_record)]" by (simp add: deref_def demo_scan_def)
  have c1': "cur ?B = Suc 0" by (simp add: cur_def demo_scan_def)
  from buildIndex_during_scan [OF i run0 busy0, of no_options]
  have u: "deref ?B (cur ?B) = []" and v: "deref ?B (cur ?A) = deref ?A (cur ?A)"
    using t0 demo_resume_1 by blast+
  have u': "deref ?B 1 = []" using u unfolding c1' by simp
  have v': "deref ?B 0 = [(''old.ts'', demo_old_record)]" using v unfolding c0 d0 .
  have run: "run_events demo_host [CallBuildIndex no_options, Resume, Resume] demo_prev = Some ([Pending], ?C)"
    by (simp add: demo_call demo_resume_1 demo_resume_2)
  have busy: "task ?C \<noteq> None" by (simp add: demo_scan_def)
  have t: "task ?C = Some (AwaitIndexFile default_options ''/w/b.ts'' (Some (demo_record ''b.ts''))
                [''/w/c.ts'', ''/w/d.ts'', ''/w/e.ts'', ''/w/f.ts'', ''/w/g.ts'', ''/w/h.ts'',
                 ''/w/i.ts'', ''/w/j.ts''])" by (simp add: demo_scan_def)
  have c1: "cur ?C = 1" by (simp add: cur_def demo_scan_def)
  have d1: "deref ?C 1 = [(''a.ts'', demo_record ''a.ts'')]" by (simp add: deref_def demo_scan_def)
  have b: "path_basename ''/w/b.ts'' = ''b.ts''" by code_simp
  from buildIndex_during_scan [OF i run busy, of no_options]
  have x: "buildIndex_call demo_host no_options ?C = (Returned (cur ?C), ?C)"
    and y: "deref ?D (cur ?C) = obj_set (deref ?C (cur ?C)) (path_basename ''/w/b.ts'') (demo_record ''b.ts'')"
    using t demo_resume_3 by blast+
  have x': "buildIndex_call demo_host no_options ?C = (Returned 1, ?C)"
    using x unfolding c1 .
  have y': "deref ?D 1 = obj_set [(''a.ts'', demo_record ''a.ts'')] ''b.ts'' (demo_record ''b.ts'')"
    using y unfolding c1 d1 b .
  show ?thesis by (rule conjI i run0 u' v' run x' y')+
qed

text \<open>
  Claim C6 as stated fails. A build starts on an indexer that holds the index of an
  earlier build (object 0, one file \<^verbatim>\<open>old.ts\<close>). After the scan has stored its first file
  a second call returns object 1, whose content is then the single file \<^verbatim>\<open>a.ts\<close>, not the
  previous snapshot; one step later the same object holds \<^verbatim>\<open>a.ts\<close> and \<^verbatim>\<open>b.ts\<close>.
\<close>

theorem buildIndex_second_call_counterexample:
  "map_option (\<lambda>(rs, s). (rs, obj_keys (deref s 1), obj_keys (deref s 0)))
     (run_events demo_host [CallBuildIndex no_options, Resume, Resume, CallBuildIndex no_options] demo_prev)
     = Some ([Pending, Returned 1], [''a.ts''], [''old.ts'']) \<and>
   map_option (\<lambda>(rs, s). (rs, obj_keys (deref s 1), obj_keys (deref s 0)))
     (run_events demo_host
        [CallBuildIndex no_options, Resume, Resume, CallBuildIndex no_options, Resume] demo_prev)
     = Some ([Pending, Returned 1], [''a.ts'', ''b.ts''], [''old.ts'']) \<and>
   obj_keys (projectIndex (ix demo_prev)) = [''old.ts'']"
proof -
  let ?S = "demo_scan [(''a.ts'', demo_record ''a.ts'')]
             (AwaitIndexFile default_options ''/w/b.ts'' (Some (demo_record ''b.ts''))
                [''/w/c.ts'', ''/w/d.ts'', ''/w/e.ts'', ''/w/f.ts'', ''/w/g.ts'', ''/w/h.ts'',
                 ''/w/i.ts'', ''/w/j.ts''])"
  have call2: "buildIndex_call demo_host no_options ?S = (Returned 1, ?S)"
    by (simp add: buildIndex_call_def demo_scan_def cur_def)
  have 1: "run_events demo_host [CallBuildIndex no_options, Resume, Resume, CallBuildIndex no_options] demo_prev =
             Some ([Pending, Returned 1], ?S)"
    by (simp add: demo_call demo_resume_1 demo_resume_2 call2)
  have 2: "run_events demo_host
             [CallBuildIndex no_options, Resume, Resume, CallBuildIndex no_options, Resume] demo_prev =
           Some ([Pending, Returned 1],
                 demo_scan [(''a.ts'', demo_record ''a.ts''), (''b.ts'', demo_record ''b.ts'')]
                   (AwaitIndexFile default_options ''/w/c.ts'' None
                      [''/w/d.ts'', ''/w/e.ts'', ''/w/f.ts'', ''/w/g.ts'', ''/w/h.ts'', ''/w/i.ts'',
                       ''/w/j.ts'']))"
    by (simp add: demo_call demo_resume_1 demo_resume_2 call2 demo_resume_3)
  show ?thesis
    unfolding 1 2 by (simp add: deref_def demo_scan_def obj_keys_def demo_prev_def)
qed

section \<open>Proofs: the file resolver\<close>

lemma match0_all_returns:
  "0 < min_len (rx_re re) \<Longrightarrow> \<exists>gs. match0_all re s = Some gs"
  using exec_all_returns[of re s] by (auto simp: match0_all_def)

lemma identifier_patterns_nonempty:
  "re \<in> set identifier_patterns \<Longrightarrow> 0 < min_len (rx_re re)"
  by (auto simp: identifier_patterns_def class_name_re_def pascal_case_re_def camel_case_re_def
      snake_case_re_def file_name_re_def rx_alnum_def rx_letter_def rx_defs)

lemma extractIdentifiers_returns: "\<exists>ids. extractIdentifiers instruction = Some ids"
proof -
  have "\<exists>ys. collect_all (map match0_all identifier_patterns) instruction = Some ys"
  proof (rule collect_all_returns)
    fix f assume "f \<in> set (map match0_all identifier_patterns)"
    then obtain re where "re \<in> set identifier_patterns" and f: "f = match0_all re" by auto
    then have "0 < min_len (rx_re re)" by (simp add: identifier_patterns_nonempty)
    then show "\<exists>xs. f instruction = Some xs" unfolding f by (rule match0_all_returns)
  qed
  then show ?thesis by (auto simp: extractIdentifiers_def Let_def)
qed

lemma set_insert_desc: "set (insert_desc m ms) = insert m (set ms)"
  by (induction ms) auto

lemma sorted_insert_desc:
  "sorted_wrt (\<lambda>a b. fm_score b \<le> fm_score a) ms \<Longrightarrow>
   sorted_wrt (\<lambda>a b. fm_score b \<le> fm_score a) (insert_desc m ms)"
  by (induction ms) (auto simp: set_insert_desc)

lemma foldl_insert_desc:
  "sorted_wrt (\<lambda>a b. fm_score b \<le> fm_score a) acc \<Longrightarrow>
   set (foldl (\<lambda>acc m. insert_desc m acc) acc ms) = set acc \<union> set ms \<and>
   sorted_wrt (\<lambda>a b. fm_score b \<le> fm_score a) (foldl (\<lambda>acc m. insert_desc m acc) acc ms)"
proof (induction ms arbitrary: acc)
  case Nil
  then show ?case by simp
next
  case (Cons m ms)
  have "sorted_wrt (\<lambda>a b. fm_score b \<le> fm_score a) (insert_desc m acc)"
    using Cons.prems by (rule sorted_insert_desc)
  from Cons.IH[OF this] show ?case by (auto simp: set_insert_desc)
qed

lemma sort_desc_props:
  "set (sort_desc ms) = set ms \<and> sorted_wrt (\<lambda>a b. fm_score b \<le> fm_score a) (sort_desc ms)"
  using foldl_insert_desc[of "[]" ms] by (simp add: sort_desc_def)

lemma take1_sort_desc:
  assumes "ms \<noteq> []"
  shows "\<exists>m. take 1 (sort_desc ms) = [m] \<and> m \<in> set ms \<and> (\<forall>m' \<in> set ms. fm_score m' \<le> fm_score m)"
proof -
  have "set (sort_desc ms) = set ms" using sort_desc_props by blast
  then have "sort_desc ms \<noteq> []" using assms by auto
  then obtain m rest where s: "sort_desc ms = m # rest" by (cases "sort_desc ms") auto
  have srt: "sorted_wrt (\<lambda>a b. fm_score b \<le> fm_score a) (m # rest)"
    using sort_desc_props[of ms] s by simp
  have mem: "set ms = insert m (set rest)" using sort_desc_props[of ms] s by auto
  have "\<forall>m' \<in> set ms. fm_score m' \<le> fm_score m" using srt mem by auto
  then show ?thesis using s mem by auto
qed

lemma findExactFileMatches_sound:
  assumes "m \<in> set (findExactFileMatches identifier index)"
  shows "fm_matchType m = Exact \<and> fm_file m \<in> set (obj_values index) \<and>
         name_hit identifier (fm_file m) \<and> fm_score m = hit_score identifier (fm_file m)"
proof -
  from assms obtain fl where f: "fl \<in> set (obj_values index)"
    and m: "m \<in> set (let fileName = file_base_name fl in
        if toLowerCase fileName = toLowerCase identifier then
          [\<lparr>fm_file = fl, fm_score = 1, fm_matchType = Exact,
            fm_matchReason = ''Exact file name match: '' @ fileName\<rparr>]
        else if js_includes (toLowerCase fileName) (toLowerCase identifier) then
          [\<lparr>fm_file = fl,
            fm_score = fmul (fdiv (len identifier) (len fileName)) (dbl (8 / 10)),
            fm_matchType = Exact,
            fm_matchReason = ''File name contains: '' @ identifier\<rparr>]
        else [])"
    unfolding findExactFileMatches_def by auto
  show ?thesis
  proof (cases "toLowerCase (file_base_name fl) = toLowerCase identifier")
    case True
    then show ?thesis using m f by (simp add: Let_def name_hit_def hit_score_def)
  next
    case False
    then show ?thesis using m f
      by (cases "js_includes (toLowerCase (file_base_name fl)) (toLowerCase identifier)")
        (simp_all add: Let_def name_hit_def hit_score_def)
  qed
qed

lemma findExactFileMatches_complete:
  assumes "file \<in> set (obj_values index)" and "name_hit identifier file"
  shows "\<exists>m \<in> set (findExactFileMatches identifier index).
           fm_file m = file \<and> fm_score m = hit_score identifier file"
proof -
  let ?f = "\<lambda>file.
        let fileName = file_base_name file in
        if toLowerCase fileName = toLowerCase identifier then
          [\<lparr>fm_file = file, fm_score = 1, fm_matchType = Exact,
            fm_matchReason = ''Exact file name match: '' @ fileName\<rparr>]
        else if js_includes (toLowerCase fileName) (toLowerCase identifier) then
          [\<lparr>fm_file = file,
            fm_score = fmul (fdiv (len identifier) (len fileName)) (dbl (8 / 10)),
            fm_matchType = Exact,
            fm_matchReason = ''File name contains: '' @ identifier\<rparr>]
        else []"
  have "\<exists>m \<in> set (?f file). fm_file m = file \<and> fm_score m = hit_score identifier file"
    using assms(2) by (auto simp: Let_def name_hit_def hit_score_def)
  then obtain m where "m \<in> set (?f file)" "fm_file m = file" "fm_score m = hit_score identifier file"
    by blast
  moreover have "set (?f file) \<subseteq> set (findExactFileMatches identifier index)"
    using assms(1) unfolding findExactFileMatches_def by auto
  ultimately show ?thesis by blast
qed

lemma exact_matches_sound:
  assumes "m \<in> set (exact_matches identifiers index)"
  shows "fm_matchType m = Exact \<and> fm_file m \<in> set (obj_values index) \<and>
         (\<exists>identifier \<in> set identifiers.
            name_hit identifier (fm_file m) \<and> fm_score m = hit_score identifier (fm_file m))"
proof -
  from assms obtain idn where i: "idn \<in> set identifiers"
    and m: "m \<in> set (findExactFileMatches idn index)"
    by (auto simp: exact_matches_def)
  from findExactFileMatches_sound[OF m] i show ?thesis by blast
qed

lemma exact_matches_complete:
  assumes "identifier \<in> set identifiers" and "file \<in> set (obj_values index)"
    and "name_hit identifier file"
  shows "\<exists>m \<in> set (exact_matches identifiers index). fm_score m = hit_score identifier file"
proof -
  from findExactFileMatches_complete[OF assms(2,3)] obtain m
    where "m \<in> set (findExactFileMatches identifier index)" "fm_score m = hit_score identifier file"
    by blast
  then show ?thesis using assms(1) by (auto simp: exact_matches_def)
qed

text \<open>
  Rounding decides comparisons of scores: as doubles, \<^verbatim>\<open>3 / 21 * 0.7\<close> is below
  \<^verbatim>\<open>0.1\<close> and \<^verbatim>\<open>3 / 8 * 0.8\<close> is above \<^verbatim>\<open>0.3\<close>, where the exact values are equal.
\<close>

lemma score_rounding:
  "fmul (fdiv 3 21) (dbl (7 / 10)) < dbl (1 / 10)"
  "dbl (3 / 10) < fmul (fdiv 3 8) (dbl (8 / 10))"
  by code_simp+

text \<open>
  Claim C1. For every instruction and indexed project in which at least one extracted
  identifier equals, ignoring case, or is contained in the base name (extension removed)
  of some indexed file, \<open>resolveFiles\<close> returns exactly one match. The match has type
  \<open>Exact\<close>; its file is an indexed file whose base name equals or contains one of the
  extracted identifiers, and its score is the score of that hit; no identifier hits any
  indexed file with a higher score. The call goes straight from the exact pass to its
  return: the log holds the line of the exact result and not the line that announces the
  class, function, export and fuzzy passes, and the result is the same for all options.
\<close>

theorem resolveFiles_exact_short_circuit:
  assumes indexed: "isIndexed st"
    and ids: "extractIdentifiers instruction = Some identifiers"
    and hit: "identifier \<in> set identifiers" "file \<in> set (obj_values (projectIndex st))"
      "name_hit identifier file"
  shows "\<exists>m. resolveFiles h instruction options st =
               Some ([m],
                     [LogResolving instruction, LogIdentifiers identifiers, LogExactFound 1, LogMatch m],
                     st) \<and>
             fm_matchType m = Exact \<and>
             fm_file m \<in> set (obj_values (projectIndex st)) \<and>
             (\<exists>id \<in> set identifiers.
                name_hit id (fm_file m) \<and> fm_score m = hit_score id (fm_file m)) \<and>
             (\<forall>id' \<in> set identifiers. \<forall>file' \<in> set (obj_values (projectIndex st)).
                name_hit id' file' \<longrightarrow> hit_score id' file' \<le> fm_score m)"
proof -
  let ?ex = "exact_matches identifiers (projectIndex st)"
  from exact_matches_complete[OF hit] have ne: "?ex \<noteq> []" by auto
  from take1_sort_desc[OF ne] obtain m where
    m: "take 1 (sort_desc ?ex) = [m]" "m \<in> set ?ex" "\<forall>m' \<in> set ?ex. fm_score m' \<le> fm_score m"
    by blast
  note snd = exact_matches_sound[OF m(2)]
  have top: "hit_score id' file' \<le> fm_score m"
    if "id' \<in> set identifiers" "file' \<in> set (obj_values (projectIndex st))" "name_hit id' file'"
    for id' file'
  proof -
    from exact_matches_complete[OF that] obtain m' where "m' \<in> set ?ex"
      "fm_score m' = hit_score id' file'" by blast
    then show ?thesis using m(3) by auto
  qed
  have len: "length ?ex > 0" using ne by simp
  have "resolveFiles h instruction options st =
          Some ([m], [LogResolving instruction, LogIdentifiers identifiers, LogExactFound 1, LogMatch m], st)"
    using indexed ids len m(1)
    by (simp add: resolveFiles_def Let_def getIndex_def exact_matches_def[symmetric])
  then show ?thesis using snd top by blast
qed

text \<open>
  The instruction \<^verbatim>\<open>update main.ts\<close> on an index of \<^verbatim>\<open>mainHelper.ts\<close> (which declares a
  class and a function \<^verbatim>\<open>main\<close>) and \<^verbatim>\<open>main.ts\<close>: the identifier \<^verbatim>\<open>main\<close> hits both
  files, \<^verbatim>\<open>main.ts\<close> with score 1 and \<^verbatim>\<open>mainHelper.ts\<close> with \<^verbatim>\<open>4 / 10 * 0.8\<close>, which is
  the double 0.32000000000000006; the one match returned is \<^verbatim>\<open>main.ts\<close>.
\<close>

theorem resolveFiles_exact_short_circuit_witness:
  "isIndexed demo_indexed \<and>
   extractIdentifiers ''update main.ts'' = Some [''main'', ''main.ts''] \<and>
   name_hit ''main'' demo_main \<and> name_hit ''main'' demo_helper \<and>
   resolveFiles demo_host ''update main.ts'' no_resolver_options demo_indexed =
     Some ([\<lparr>fm_file = demo_main, fm_score = 1, fm_matchType = Exact,
             fm_matchReason = ''Exact file name match: main''\<rparr>],
           [LogResolving ''update main.ts'', LogIdentifiers [''main'', ''main.ts''], LogExactFound 1,
            LogMatch \<lparr>fm_file = demo_main, fm_score = 1, fm_matchType = Exact,
                      fm_matchReason = ''Exact file name match: main''\<rparr>],
           demo_indexed) \<and>
   hit_score ''main'' demo_main = 1 \<and>
   hit_score ''main'' demo_helper = 1441151880758559 / 4503599627370496 \<and>
   hit_score ''main'' demo_helper \<le> 1"
proof -
  let ?M = "\<lparr>fm_file = demo_main, fm_score = 1, fm_matchType = Exact,
             fm_matchReason = ''Exact file name match: main''\<rparr>"
  have indexed: "isIndexed demo_indexed" by code_simp
  have ids: "extractIdentifiers ''update main.ts'' = Some [''main'', ''main.ts'']" by code_simp
  have hit1: "''main'' \<in> set [''main'', ''main.ts'']" by simp
  have hit2: "demo_helper \<in> set (obj_values (projectIndex demo_indexed))"
    by (simp add: demo_indexed_def obj_values_def)
  have hit3: "name_hit ''main'' demo_helper" by code_simp
  have hit4: "name_hit ''main'' demo_main" by code_simp
  have s1: "hit_score ''main'' demo_main = 1" by code_simp
  have s2: "hit_score ''main'' demo_helper = 1441151880758559 / 4503599627370496" by code_simp
  from resolveFiles_exact_short_circuit [OF indexed ids hit1 hit2 hit3, of demo_host no_resolver_options]
  obtain m where r: "resolveFiles demo_host ''update main.ts'' no_resolver_options demo_indexed =
        Some ([m], [LogResolving ''update main.ts'', LogIdentifiers [''main'', ''main.ts''],
                    LogExactFound 1, LogMatch m], demo_indexed)"
    and top: "\<forall>id' \<in> set [''main'', ''main.ts''].
                \<forall>file' \<in> set (obj_values (projectIndex demo_indexed)).
                  name_hit id' file' \<longrightarrow> hit_score id' file' \<le> fm_score m"
    by blast
  have e: "map_option (\<lambda>(ms, log, st). ms)
             (resolveFiles demo_host ''update main.ts'' no_resolver_options demo_indexed) = Some [?M]"
    by code_simp
  have m: "m = ?M" using r e by simp
  have "hit_score ''main'' demo_helper \<le> fm_score m" using top hit1 hit2 hit3 by blast
  then have s3: "hit_score ''main'' demo_helper \<le> 1" unfolding m by simp
  show ?thesis using indexed ids hit3 hit4 r s1 s2 s3 unfolding m by (intro conjI)
qed

end
